theory Spec2Isabelle
  imports Main "HOL-Library.Multiset" "HOL-Library.Sublist" "HOL-Library.Char_ord" "HOL-Library.List_Lexorder"
    "HOL-Library.Product_Lexorder"
begin

section \<open>Python string operations used by the generators\<close>

text \<open>
  Strings are \<open>char list\<close>. The catalog's keys, paths and names are taken to be ASCII:
  \<open>lower\<close>, \<open>upper\<close> and \<open>capitalize\<close> change the letters A-Z and a-z only, and
  comparison is by character code, which is Python's order on ASCII text.
\<close>

text \<open>\<open>s.replace(old, new)\<close>: non-overlapping occurrences, scanned from the left.\<close>

fun replace_from :: "string \<Rightarrow> string \<Rightarrow> string \<Rightarrow> string" where
  "replace_from old new [] = []"
| "replace_from old new (c # cs) =
     (if old \<noteq> [] \<and> prefix old (c # cs)
      then new @ replace_from old new (drop (length old) (c # cs))
      else c # replace_from old new cs)"

definition replace :: "string \<Rightarrow> string \<Rightarrow> string \<Rightarrow> string" where
  "replace old new s =
     (if old = [] then new @ concat (map (\<lambda>c. c # new) s) else replace_from old new s)"

definition lower_char :: "char \<Rightarrow> char" where
  "lower_char c =
     (let n = (of_char c :: nat) in if 65 \<le> n \<and> n \<le> 90 then char_of (n + 32) else c)"

definition upper_char :: "char \<Rightarrow> char" where
  "upper_char c =
     (let n = (of_char c :: nat) in if 97 \<le> n \<and> n \<le> 122 then char_of (n - 32) else c)"

definition lower :: "string \<Rightarrow> string" where
  "lower s = map lower_char s"

definition upper :: "string \<Rightarrow> string" where
  "upper s = map upper_char s"

text \<open>\<open>s.capitalize()\<close>: first character upper-cased, the rest lower-cased.\<close>

definition capitalize :: "string \<Rightarrow> string" where
  "capitalize s = (case s of [] \<Rightarrow> [] | c # cs \<Rightarrow> upper_char c # lower cs)"

text \<open>\<open>s.split(sep)\<close> for a one-character separator, the only way the source calls it.\<close>

fun split :: "char \<Rightarrow> string \<Rightarrow> string list" where
  "split sep [] = [[]]"
| "split sep (c # cs) =
     (if c = sep then [] # split sep cs
      else (case split sep cs of [] \<Rightarrow> [[c]] | w # ws \<Rightarrow> (c # w) # ws))"

text \<open>\<open>s.split(sep, 1)\<close>: at most one split, at the first separator.\<close>

definition split1 :: "char \<Rightarrow> string \<Rightarrow> string list" where
  "split1 sep s =
     (if sep \<in> set s
      then [takeWhile (\<lambda>c. c \<noteq> sep) s, tl (dropWhile (\<lambda>c. c \<noteq> sep) s)]
      else [s])"

definition lstrip :: "char \<Rightarrow> string \<Rightarrow> string" where
  "lstrip ch s = dropWhile (\<lambda>c. c = ch) s"

definition rstrip :: "char \<Rightarrow> string \<Rightarrow> string" where
  "rstrip ch s = rev (dropWhile (\<lambda>c. c = ch) (rev s))"

definition strip :: "char \<Rightarrow> string \<Rightarrow> string" where
  "strip ch s = rstrip ch (lstrip ch s)"

text \<open>\<open>sep.join(xs)\<close>.\<close>

fun join :: "string \<Rightarrow> string list \<Rightarrow> string" where
  "join sep [] = []"
| "join sep [x] = x"
| "join sep (x # y # ys) = x @ sep @ join sep (y # ys)"

text \<open>\<open>sub in s\<close> on strings.\<close>

fun contains :: "string \<Rightarrow> string \<Rightarrow> bool" where
  "contains sub [] = (sub = [])"
| "contains sub (c # cs) = (prefix sub (c # cs) \<or> contains sub cs)"

text \<open>\<open>str(n)\<close> for an integer.\<close>

fun str_nat :: "nat \<Rightarrow> string" where
  "str_nat n =
     (if n < 10 then [char_of (48 + n)] else str_nat (n div 10) @ [char_of (48 + n mod 10)])"

definition str_int :: "int \<Rightarrow> string" where
  "str_int i = (if i < 0 then CHR ''-'' # str_nat (nat (- i)) else str_nat (nat i))"

text \<open>A string or \<open>None\<close> as a condition.\<close>

definition truthy :: "string option \<Rightarrow> bool" where
  "truthy x = (case x of None \<Rightarrow> False | Some s \<Rightarrow> s \<noteq> [])"

section \<open>The endpoint catalog\<close>

text \<open>
  The catalog (api_reference.json, loaded) is a Python dict from the endpoint key
  (\<open>"METHOD /path"\<close>) to the endpoint's entry. Dicts whose iteration order the code
  depends on are association lists, in insertion order; a Python dict has no repeated key.
  The entries are modelled with the shape the normalised catalog has: \<open>d.get(k)\<close> of an
  absent key is \<open>None\<close>, \<open>d.get(k, [])\<close> and \<open>d.get(k, {})\<close> of an absent key are
  the empty list.
\<close>

datatype schema = Schema
  (schema_type: "string option")
  (schema_format: "string option")
  (schema_properties: "(string \<times> schema) list")
  (schema_items: "schema option")
  (schema_required: "string list")
  (schema_nullable: "bool option")

text \<open>The empty dict \<open>{}\<close> as a schema.\<close>

definition empty_schema :: schema where
  "empty_schema = Schema None None [] None [] None"

text \<open>The value under \<open>status_code\<close>: absent, a JSON integer or a JSON string.\<close>

datatype status = NoStatus | IntStatus int | StrStatus string

text \<open>\<open>str(r.get('status_code'))\<close>.\<close>

fun str_status :: "status \<Rightarrow> string" where
  "str_status NoStatus = ''None''"
| "str_status (IntStatus i) = str_int i"
| "str_status (StrStatus s) = s"

record response =
  resp_status_code :: status
  resp_schema :: "schema option"
  resp_content_type :: "string option"

record param =
  param_name :: string
  param_type :: string

text \<open>
  A catalog entry. \<open>ed_request_body\<close> is the truth value of the entry's \<open>request_body\<close>,
  the only thing the test generator reads of it.
\<close>

record endpoint_data =
  ed_method :: "string option"
  ed_path :: "string option"
  ed_description :: "string option"
  ed_parameters :: "param list"
  ed_request_body :: bool
  ed_responses :: "(string \<times> response) list"
  ed_source_title :: "string option"

type_synonym api_reference = "(string \<times> endpoint_data) list"

text \<open>The dict that \<open>_get_endpoint_groups\<close> builds for one endpoint.\<close>

record endpoint =
  ep_path :: string
  ep_method :: string
  ep_description :: string
  ep_parameters :: "param list"
  ep_request_body :: bool
  ep_responses :: "(string \<times> response) list"
  ep_endpoint_name :: string
  ep_path_parameters :: "string list"
  ep_title :: string

type_synonym endpoint_groups = "(string \<times> endpoint list) list"

datatype error = KeyError | LoadError

section \<open>The test-group classifier (models_tests.py)\<close>

text \<open>\<open>TestsContainer._clean_name\<close> (models_tests.py).\<close>

definition clean_name :: "string \<Rightarrow> string" where
  "clean_name name =
     replace '' '' ''_'' (replace ''.'' ''_'' (replace ''-'' ''_''
       (replace ''}'' [] (replace ''{'' [] name))))"

text \<open>\<open>TestsContainer._get_service_and_title\<close>.\<close>

definition get_service_and_title :: "api_reference \<Rightarrow> string \<Rightarrow> string \<times> string" where
  "get_service_and_title api endpoint =
     (let source_title =
            (case map_of api endpoint of
               None \<Rightarrow> ''common''
             | Some endpoint_details \<Rightarrow>
                 (case ed_source_title endpoint_details of None \<Rightarrow> ''common'' | Some t \<Rightarrow> t));
          title = replace ''}'' [] (replace ''{'' [] (replace '' '' ''_'' (lower source_title)));
          endpoint_clean = lstrip (CHR ''/'') (last (split1 (CHR '' '') endpoint));
          parts = split (CHR ''/'') endpoint_clean;
          service = (case parts of
                       [] \<Rightarrow> ''common''
                     | p # _ \<Rightarrow> replace ''}'' [] (replace ''{'' [] (lower p)));
          service = (if service = ''users_profile'' then ''profile'' else service)
      in (service, title))"

text \<open>
  \<open>groups[service].append(e)\<close>, after \<open>groups[service] = []\<close> when the key is new: a new
  key goes to the end of the dict, an old one keeps its place.
\<close>

definition groups_append :: "endpoint_groups \<Rightarrow> string \<Rightarrow> endpoint \<Rightarrow> endpoint_groups" where
  "groups_append groups service e =
     (if service \<in> set (map fst groups)
      then map (\<lambda>(k, es). if k = service then (k, es @ [e]) else (k, es)) groups
      else groups @ [(service, [e])])"

text \<open>The dict that the loop of \<open>_get_endpoint_groups\<close> appends for one catalog entry.\<close>

definition endpoint_record :: "api_reference \<Rightarrow> string \<times> endpoint_data \<Rightarrow> endpoint" where
  "endpoint_record api item =
     (let endpoint_path = fst item;
          endpoint_data = snd item;
          path_parts = split (CHR ''/'') endpoint_path;
          (service, title) = get_service_and_title api endpoint_path;
          path_parameters =
            map param_name (filter (\<lambda>p. param_type p = ''path'') (ed_parameters endpoint_data))
      in \<lparr> ep_path = endpoint_path,
           ep_method = upper (case ed_method endpoint_data of None \<Rightarrow> [] | Some m \<Rightarrow> m),
           ep_description =
             (case ed_description endpoint_data of None \<Rightarrow> [] | Some d \<Rightarrow> d),
           ep_parameters = ed_parameters endpoint_data,
           ep_request_body = ed_request_body endpoint_data,
           ep_responses = ed_responses endpoint_data,
           ep_endpoint_name = clean_name (last path_parts),
           ep_path_parameters = path_parameters,
           ep_title = title \<rparr>)"

text \<open>The body of the loop of \<open>_get_endpoint_groups\<close>.\<close>

definition group_endpoint ::
  "api_reference \<Rightarrow> string \<times> endpoint_data \<Rightarrow> endpoint_groups \<Rightarrow> endpoint_groups" where
  "group_endpoint api item groups =
     (let endpoint_path = fst item;
          (service, title) = get_service_and_title api endpoint_path;
          service = clean_name service
      in groups_append groups service (endpoint_record api item))"

text \<open>\<open>TestsContainer._get_endpoint_groups\<close>.\<close>

definition get_endpoint_groups :: "api_reference \<Rightarrow> endpoint_groups" where
  "get_endpoint_groups api = fold (group_endpoint api) api []"

section \<open>The resource-identifier inference (models_tests.py)\<close>

text \<open>
  \<open>list(unique_params)\<close> lists a Python set of strings in the set's iteration order, which
  the language leaves open. The order is a parameter \<open>ord\<close> of the model: it takes the
  names in the order they were put into the set and returns the list that \<open>list(...)\<close>
  gives. \<open>set_order ord\<close> says that it lists every member of the set once.
\<close>

definition set_order :: "(string list \<Rightarrow> string list) \<Rightarrow> bool" where
  "set_order ord = (\<forall>xs. distinct (ord xs) \<and> set (ord xs) = set xs)"

text \<open>
  \<open>TestsContainer._get_path_parameters\<close>; \<open>self._get_endpoint_groups()[service]\<close> raises
  KeyError for a service that is no key of the groups.
\<close>

definition get_path_parameters ::
  "api_reference \<Rightarrow> (string list \<Rightarrow> string list) \<Rightarrow> string \<Rightarrow> error + string list" where
  "get_path_parameters api ord service =
     (case map_of (get_endpoint_groups api) service of
        None \<Rightarrow> Inl KeyError
      | Some endpoints \<Rightarrow>
          Inr (ord (concat (map (\<lambda>e. if ep_method e \<noteq> ''POST'' \<and> ep_path_parameters e \<noteq> []
                                       then ep_path_parameters e else []) endpoints))))"

text \<open>
  The success response: \<open>next((r for r in responses.values()
  if str(r.get('status_code')).startswith('2')), None)\<close>.
\<close>

definition success_response :: "(string \<times> response) list \<Rightarrow> response option" where
  "success_response responses =
     find (\<lambda>r. prefix ''2'' (str_status (resp_status_code r))) (map snd responses)"

text \<open>
  \<open>TestsContainer._find_resource_id_field\<close>. A schema is false as a condition when it is
  absent or the empty dict. The third search reads \<open>properties[field]\<close> for each key
  \<open>field\<close> of the properties: the schema paired with that key.
\<close>

definition find_resource_id_field ::
  "api_reference \<Rightarrow> (string list \<Rightarrow> string list) \<Rightarrow> string \<Rightarrow> (string \<times> response) list
     \<Rightarrow> error + string option" where
  "find_resource_id_field api ord service responses =
     (case get_path_parameters api ord service of
        Inl err \<Rightarrow> Inl err
      | Inr path_params \<Rightarrow>
          (case success_response responses of
             None \<Rightarrow> Inr None
           | Some success \<Rightarrow>
               (case resp_schema success of
                  None \<Rightarrow> Inr None
                | Some schema \<Rightarrow>
                    if schema = empty_schema then Inr None
                    else if resp_content_type success = Some ''text/plain''
                          \<and> schema_type schema = Some ''string''
                          \<and> schema_format schema = Some ''uuid''
                    then Inr (Some (lower service @ ''Id''))
                    else if schema_type schema = Some ''string''
                    then Inr (Some ''response'')
                    else if schema_type schema = Some ''object'' \<and> schema_properties schema \<noteq> []
                    then
                      (let properties = schema_properties schema in
                       case find (\<lambda>p. p \<in> set (map fst properties)) path_params of
                         Some p \<Rightarrow> Inr (Some p)
                       | None \<Rightarrow>
                           (case find (\<lambda>snake_case. snake_case \<in> set (map fst properties))
                                   (map (\<lambda>p. lower (replace ''Id'' ''_id'' p)) path_params) of
                              Some snake_case \<Rightarrow> Inr (Some snake_case)
                            | None \<Rightarrow>
                                (case find (\<lambda>(field, fschema). contains ''id'' (lower field)
                                              \<and> schema_format fschema = Some ''uuid'') properties of
                                   Some (field, fschema) \<Rightarrow> Inr (Some field)
                                 | None \<Rightarrow> Inr None)))
                    else Inr None)))"

record id_mapping =
  im_source :: string
  im_source_test_name :: string
  im_id_field :: string
  im_used_in :: "string list"

type_synonym id_mappings = "string \<rightharpoonup> id_mapping"

text \<open>The suffix of a test name: the service's root endpoint does not repeat the name.\<close>

definition test_name_suffix :: "string \<Rightarrow> string \<Rightarrow> string" where
  "test_name_suffix endpoint_name service =
     (if endpoint_name = service then ''default'' else endpoint_name @ ''_default'')"

text \<open>
  The first loop of \<open>_predict_id_usage\<close>, innermost first: the response codes of one POST
  (\<open>if id_field:\<close> is false for \<open>None\<close> and for the empty string), the endpoints of one
  service, the services.
\<close>

fun record_codes ::
  "api_reference \<Rightarrow> (string list \<Rightarrow> string list) \<Rightarrow> string \<Rightarrow> endpoint \<Rightarrow> string list
     \<Rightarrow> id_mappings \<Rightarrow> error + id_mappings" where
  "record_codes api ord service e [] m = Inr m"
| "record_codes api ord service e (code # codes) m =
     (if code \<in> set (map fst (ep_responses e))
      then (case find_resource_id_field api ord service (ep_responses e) of
              Inl err \<Rightarrow> Inl err
            | Inr None \<Rightarrow> record_codes api ord service e codes m
            | Inr (Some id_field) \<Rightarrow>
                if id_field \<noteq> []
                then record_codes api ord service e codes
                       (m(service \<mapsto>
                          \<lparr> im_source = ep_path e,
                            im_source_test_name =
                              ''test_'' @ lower (ep_method e) @ ''_'' @ service @ ''_''
                                @ test_name_suffix (ep_endpoint_name e) service,
                            im_id_field = id_field,
                            im_used_in = [] \<rparr>))
                else record_codes api ord service e codes m)
      else record_codes api ord service e codes m)"

fun record_sources ::
  "api_reference \<Rightarrow> (string list \<Rightarrow> string list) \<Rightarrow> string \<Rightarrow> endpoint list
     \<Rightarrow> id_mappings \<Rightarrow> error + id_mappings" where
  "record_sources api ord service [] m = Inr m"
| "record_sources api ord service (e # es) m =
     (if ep_method e = ''POST''
      then (case record_codes api ord service e [''200'', ''201''] m of
              Inl err \<Rightarrow> Inl err
            | Inr m' \<Rightarrow> record_sources api ord service es m')
      else record_sources api ord service es m)"

fun record_services ::
  "api_reference \<Rightarrow> (string list \<Rightarrow> string list) \<Rightarrow> endpoint_groups
     \<Rightarrow> id_mappings \<Rightarrow> error + id_mappings" where
  "record_services api ord [] m = Inr m"
| "record_services api ord ((service, endpoints) # groups) m =
     (case record_sources api ord service endpoints m of
        Inl err \<Rightarrow> Inl err
      | Inr m' \<Rightarrow> record_services api ord groups m')"

text \<open>
  The second loop of \<open>_predict_id_usage\<close>, innermost first: the parameters of one
  endpoint, the endpoints of one service, the services. Each match appends the endpoint's
  path to the \<open>used_in\<close> list of the service's mapping.
\<close>

fun use_params :: "string \<Rightarrow> endpoint \<Rightarrow> param list \<Rightarrow> id_mappings \<Rightarrow> id_mappings" where
  "use_params service e [] m = m"
| "use_params service e (p # ps) m =
     (if param_type p = ''path''
      then (case m service of
              None \<Rightarrow> use_params service e ps m
            | Some mp \<Rightarrow>
                if param_name p = im_id_field mp \<or> contains ''id'' (lower (param_name p))
                then use_params service e ps
                       (m(service \<mapsto> mp\<lparr> im_used_in := im_used_in mp @ [ep_path e] \<rparr>))
                else use_params service e ps m)
      else use_params service e ps m)"

fun use_endpoints :: "string \<Rightarrow> endpoint list \<Rightarrow> id_mappings \<Rightarrow> id_mappings" where
  "use_endpoints service [] m = m"
| "use_endpoints service (e # es) m =
     (if ep_method e \<in> set [''GET'', ''PUT'', ''DELETE'', ''PATCH'']
      then use_endpoints service es (use_params service e (ep_parameters e) m)
      else use_endpoints service es m)"

fun use_services :: "endpoint_groups \<Rightarrow> id_mappings \<Rightarrow> id_mappings" where
  "use_services [] m = m"
| "use_services ((service, endpoints) # groups) m =
     (if service \<in> dom m
      then use_services groups (use_endpoints service endpoints m)
      else use_services groups m)"

text \<open>\<open>TestsContainer._predict_id_usage\<close>.\<close>

definition predict_id_usage ::
  "api_reference \<Rightarrow> (string list \<Rightarrow> string list) \<Rightarrow> error + id_mappings" where
  "predict_id_usage api ord =
     (let groups = get_endpoint_groups api in
      case record_services api ord groups Map.empty of
        Inl err \<Rightarrow> Inl err
      | Inr id_mappings \<Rightarrow> Inr (use_services groups id_mappings))"

section \<open>The test-case generator (models_tests.py)\<close>

text \<open>The apostrophe, for the quotations inside the emitted lines.\<close>

definition sq :: string where
  "sq = [CHR 0x27]"

text \<open>
  The words of the comment that the capture emits, in Russian in the source
  (``automatically chosen field'' and ``for''), as their UTF-8 bytes.
\<close>

definition chosen_field_words :: string where
  "chosen_field_words = ''        # '' @ [
      CHR 0xD0, CHR 0x90, CHR 0xD0, CHR 0xB2, CHR 0xD1, CHR 0x82,
      CHR 0xD0, CHR 0xBE, CHR 0xD0, CHR 0xBC, CHR 0xD0, CHR 0xB0,
      CHR 0xD1, CHR 0x82, CHR 0xD0, CHR 0xB8, CHR 0xD1, CHR 0x87,
      CHR 0xD0, CHR 0xB5, CHR 0xD1, CHR 0x81, CHR 0xD0, CHR 0xBA,
      CHR 0xD0, CHR 0xB8, CHR 0x20, CHR 0xD0, CHR 0xB2, CHR 0xD1,
      CHR 0x8B, CHR 0xD0, CHR 0xB1, CHR 0xD1, CHR 0x80, CHR 0xD0,
      CHR 0xB0, CHR 0xD0, CHR 0xBD, CHR 0xD0, CHR 0xBE, CHR 0x20,
      CHR 0xD0, CHR 0xBF, CHR 0xD0, CHR 0xBE, CHR 0xD0, CHR 0xBB,
      CHR 0xD0, CHR 0xB5, CHR 0x20]"

definition for_word :: string where
  "for_word = [
      CHR 0xD0, CHR 0xB4, CHR 0xD0, CHR 0xBB, CHR 0xD1, CHR 0x8F]"

text \<open>\<open>method_order.get(x['method'], 5)\<close>.\<close>

definition method_order :: "string \<Rightarrow> nat" where
  "method_order m =
     (if m = ''POST'' then 0 else if m = ''PUT'' then 1 else if m = ''GET'' then 2
      else if m = ''PATCH'' then 3 else if m = ''DELETE'' then 4 else 5)"

text \<open>The sort key \<open>lambda x: (method_order.get(x['method'], 5), x['path'])\<close>.\<close>

definition test_order :: "endpoint \<Rightarrow> nat \<times> string" where
  "test_order x = (method_order (ep_method x), ep_path x)"

text \<open>The name of the test of an endpoint, as the loop of \<open>_generate_test_content\<close> builds it.\<close>

definition test_name :: "string \<Rightarrow> endpoint \<Rightarrow> string" where
  "test_name service endpoint =
     (let endpoint_name = ep_endpoint_name endpoint;
          suffix = test_name_suffix endpoint_name service;
          suffix = (if ep_path_parameters endpoint \<noteq> [] \<and> endpoint_name \<noteq> service
                    then endpoint_name @ ''_id_default'' else suffix)
      in ''test_'' @ lower (ep_method endpoint) @ ''_'' @ service @ ''_'' @ suffix)"

text \<open>
  The body of the loop of \<open>_generate_test_content\<close>: the lines appended for one endpoint,
  none when the endpoint has no success response (\<open>continue\<close>).
\<close>

definition test_method :: "id_mappings \<Rightarrow> string \<Rightarrow> string \<Rightarrow> endpoint \<Rightarrow> string list" where
  \<open>test_method id_mappings service title endpoint =
     (let method = ep_method endpoint;
          endpoint_name = ep_endpoint_name endpoint;
          path_key = (if endpoint_name = service then service
                      else service @ ''_'' @ endpoint_name);
          responses = ep_responses endpoint
      in case success_response responses of
           None \<Rightarrow> []
         | Some success \<Rightarrow>
             (let expected_status = resp_status_code success;
                  model_name = (if endpoint_name = service then service
                                else service @ ''_'' @ endpoint_name);
                  validate_model = ''models.'' @ lower title @ ''.validate.'' @ lower method
                                     @ ''_'' @ model_name @ ''_validation_success'';
                  headers = ''models.'' @ lower title @ ''.headers.auth'';
                  dependency =
                    (case id_mappings service of
                       None \<Rightarrow> None
                     | Some mp \<Rightarrow>
                         if ep_path endpoint \<in> set (im_used_in mp)
                         then Some (im_source_test_name mp) else None);
                  data_type =
                    (if ep_request_body endpoint \<and> method \<in> set [''POST'', ''PUT'']
                     then Some (''models.'' @ lower title @ ''.payload.'' @ lower method
                                  @ ''_'' @ model_name @ ''_payload_default'')
                     else None);
                  dependency_line =
                    (if truthy dependency
                     then '', depends=['' @ sq @ the dependency @ sq @ ''], force=True''
                     else [])
              in [''    @pytest.mark.dependency(name='' @ sq @ test_name service endpoint @ sq
                    @ dependency_line @ '')'',
                  ''    async def '' @ test_name service endpoint
                    @ ''(self, domain, api_client, models):'']
                 @ (if truthy dependency
                    then [''        add_url = f'' @ sq @ ''{self.__class__.resource_id}'' @ sq]
                    else [])
                 @ [''        response = await api_client.make_request('',
                    ''            '' @ sq @ method @ sq @ '','',
                    ''            models.'' @ lower title @ ''.paths.'' @ path_key @ '','',
                    ''            headers='' @ headers @ '','']
                 @ (if truthy data_type
                    then [''            data_type='' @ the data_type @ '','']
                    else [])
                 @ (if truthy dependency then [''            add_url1=add_url,''] else [])
                 @ [''            expected_status_code='' @ str_status expected_status @ '','']
                 @ (if (case resp_schema success of None \<Rightarrow> None | Some sc \<Rightarrow> schema_type sc)
                         \<noteq> Some ''null''
                    then [''            validate_model='' @ validate_model]
                    else [])
                 @ [''        )'']
                 @ (if expected_status = IntStatus 201 \<and> service \<in> dom id_mappings
                    then (let resource_field = im_id_field (the (id_mappings service)) in
                          if resource_field = ''response''
                          then [''        assert response is not None'',
                                ''        self.__class__.resource_id = response'']
                          else [chosen_field_words @ sq @ resource_field @ sq @ '' ''
                                  @ for_word @ '' resource_id'',
                                ''        assert response is not None'',
                                ''        self.__class__.resource_id = response['' @ sq
                                  @ resource_field @ sq @ '']''])
                    else if expected_status = IntStatus 204
                    then [''        assert response == '' @ sq @ sq]
                    else [''        assert response is not None''])
                 @ [[]]))\<close>

text \<open>
  The list \<open>content\<close> of \<open>_generate_test_content\<close>: the header of the test class, then
  the lines of each endpoint in sorted order.
\<close>

definition test_content :: "id_mappings \<Rightarrow> string \<Rightarrow> endpoint list \<Rightarrow> string list" where
  \<open>test_content id_mappings service endpoints =
     (let title = (case endpoints of [] \<Rightarrow> ''common'' | e # _ \<Rightarrow> ep_title e)
      in [''import allure'',
          ''import pytest'',
          [],
          [],
          ''@allure.story('' @ sq @ capitalize service @ sq @ '')'',
          ''@allure.label("suite", "API")'',
          ''@allure.label("component", "'' @ capitalize service @ ''")'',
          ''@allure.label("owner", "'' @ capitalize title @ ''")'',
          ''@pytest.mark.asyncio'',
          ''class Test'' @ capitalize service @ ''Default:'']
         @ (if service \<in> dom id_mappings then [''    resource_id: str = None''] else [])
         @ [[]]
         @ concat (map (test_method id_mappings service title)
                     (sort_key test_order endpoints)))\<close>

text \<open>\<open>TestsContainer._generate_test_content\<close>.\<close>

definition generate_test_content :: "id_mappings \<Rightarrow> string \<Rightarrow> endpoint list \<Rightarrow> string" where
  "generate_test_content id_mappings service endpoints =
     join [CHR 0x0A] (test_content id_mappings service endpoints)"

record TestFile =
  tf_name :: string
  tf_content :: string

text \<open>\<open>TestsContainer._generate_test_files\<close>.\<close>

definition generate_test_files :: "id_mappings \<Rightarrow> endpoint_groups \<Rightarrow> TestFile list" where
  "generate_test_files id_mappings groups =
     map (\<lambda>(service, endpoints).
            (let title = (case endpoints of [] \<Rightarrow> ''common'' | e # _ \<Rightarrow> ep_title e)
             in \<lparr> tf_name = title @ ''/'' @ service @ ''/test_'' @ service @ ''_default.py'',
                  tf_content = generate_test_content id_mappings service endpoints \<rparr>))
         groups"

section \<open>The path-declaration generator (models_endpoints.py)\<close>

text \<open>\<open>d[k] = v\<close> on a dict in insertion order: an old key keeps its place.\<close>

fun dict_set :: "('k \<times> 'v) list \<Rightarrow> 'k \<Rightarrow> 'v \<Rightarrow> ('k \<times> 'v) list" where
  "dict_set [] k v = [(k, v)]"
| "dict_set ((k', v') # d) k v = (if k' = k then (k, v) # d else (k', v') # dict_set d k v)"

text \<open>
  The body of the grouping loop of \<open>_generate_paths_content\<close> for one path: the class
  name of its service, the name of the endpoint and the path without its dynamic
  segments; nothing for a path that the loop skips.
\<close>

definition path_entry :: "string \<Rightarrow> (string \<times> string \<times> string) option" where
  "path_entry path =
     (if \<not> prefix ''/'' path then None
      else
        (let parts = split (CHR ''/'') (strip (CHR ''/'') path) in
         if length parts < 1 then None
         else
           (let (service_name, endpoint_parts) =
                  (if parts ! 0 = ''users'' \<and> length parts > 1 \<and> parts ! 1 = ''profile''
                   then (''UsersProfile'', drop 2 parts)
                   else (capitalize (parts ! 0), drop 1 parts));
                endpoint_name =
                  (if endpoint_parts \<noteq> [] then join ''_'' endpoint_parts else ''root'');
                endpoint_name =
                  (let replaced = replace ''.'' ''_'' (replace ''-'' ''_''
                                    (replace ''}'' [] (replace ''{'' [] endpoint_name)))
                   in if replaced \<noteq> [] then replaced else ''root'');
                clean_path =
                  join ''/'' (filter (\<lambda>p. \<not> (prefix ''{'' p \<and> suffix ''}'' p)) parts);
                has_dynamic_param = (length parts > length (split (CHR ''/'') clean_path));
                clean_path = (if has_dynamic_param then ''/'' @ clean_path @ ''/''
                              else ''/'' @ clean_path)
            in Some (service_name, endpoint_name, clean_path))))"

type_synonym path_services = "(string \<times> (string \<times> string) list) list"

text \<open>\<open>services[service_name][endpoint_name] = clean_path\<close>, the service created when new.\<close>

definition add_path :: "string \<Rightarrow> path_services \<Rightarrow> path_services" where
  "add_path path services =
     (case path_entry path of
        None \<Rightarrow> services
      | Some (service_name, endpoint_name, clean_path) \<Rightarrow>
          dict_set services service_name
            (dict_set (case map_of services service_name of None \<Rightarrow> [] | Some d \<Rightarrow> d)
               endpoint_name clean_path))"

text \<open>
  The paths put into the set \<open>unique_paths\<close>, in the order of the catalog; \<open>ord\<close> gives
  the order in which the second loop takes them out of the set.
\<close>

definition unique_paths :: "api_reference \<Rightarrow> string list" where
  "unique_paths api =
     filter (\<lambda>path. path \<noteq> [])
       (map (\<lambda>(endpoint_key, data). case ed_path data of None \<Rightarrow> [] | Some p \<Rightarrow> p) api)"

definition path_services :: "api_reference \<Rightarrow> (string list \<Rightarrow> string list) \<Rightarrow> path_services" where
  "path_services api ord = fold add_path (ord (unique_paths api)) []"

text \<open>The lines for one endpoint of a service, none for the root that equals the prefix.\<close>

definition path_line :: "string \<Rightarrow> string \<times> string \<Rightarrow> string list" where
  \<open>path_line service_name item =
     (let endpoint_name = fst item;
          path = snd item;
          service_path = (if service_name \<noteq> ''UsersProfile'' then lower service_name
                          else ''users/profile'')
      in if endpoint_name = ''root'' \<and> strip (CHR ''/'') path = service_path then []
         else
           (let relative_path = strip (CHR ''/'') (drop (length (''/'' @ service_path)) path)
            in if suffix ''_id'' endpoint_name \<or> suffix ''_filter'' endpoint_name
               then [''        '' @ endpoint_name @ '' = f"{prefix}/'' @ relative_path @ ''/"'']
               else [''        '' @ endpoint_name @ '' = f"{prefix}/'' @ relative_path @ ''"'']))\<close>

definition service_lines :: "string \<times> (string \<times> string) list \<Rightarrow> string list" where
  \<open>service_lines entry =
     (let service_name = fst entry;
          endpoints = snd entry;
          service_prefix = ''{API_PREFIX}/''
             @ (if service_name \<noteq> ''UsersProfile'' then lower service_name
                else ''users/profile'')
      in [''    class '' @ service_name @ '':'',
          ''        prefix = f"'' @ service_prefix @ ''"'']
         @ concat (map (path_line service_name) endpoints)
         @ [[]])\<close>

text \<open>The list \<open>content\<close> of \<open>_generate_paths_content\<close>.\<close>

definition paths_content :: "api_reference \<Rightarrow> (string list \<Rightarrow> string list) \<Rightarrow> string list" where
  \<open>paths_content api ord =
     [''from dataclasses import dataclass'', ''from typing import Optional'', [],
      ''API_PREFIX = "/api/v1/pages"'',
      [],
      ''@dataclass'',
      ''class Paths:'']
     @ concat (map service_lines (path_services api ord))
     @ [''    def get_path(self, service: str, endpoint: str) -> Optional[str]:'',
        ''        svc = getattr(self, service, None)'',
        ''        if svc:'',
        ''            return getattr(svc, endpoint, None)'',
        ''        return None'',
        []]\<close>

text \<open>\<open>EndpointsContainer._generate_paths_content\<close>.\<close>

definition generate_paths_content :: "api_reference \<Rightarrow> (string list \<Rightarrow> string list) \<Rightarrow> string" where
  "generate_paths_content api ord = join [CHR 0x0A] (paths_content api ord)"

section \<open>Loading the catalog\<close>

text \<open>
  The outcome of \<open>open(...)\<close> and \<open>json.load(f)\<close> on api_reference.json: the catalog, or
  the exception of a file that is missing or malformed.
\<close>

type_synonym load_result = "error + api_reference"

text \<open>\<open>TestsContainer._load_api_reference\<close>: no handler, the exception propagates.\<close>

definition tests_load_api_reference :: "load_result \<Rightarrow> error + api_reference" where
  "tests_load_api_reference loaded = loaded"

text \<open>
  \<open>ValidationsContainer._load_api_reference\<close>: the handler logs the exception and raises
  a new one.
\<close>

definition validations_load_api_reference :: "load_result \<Rightarrow> error + api_reference" where
  "validations_load_api_reference loaded =
     (case loaded of Inl e \<Rightarrow> Inl LoadError | Inr data \<Rightarrow> Inr data)"

text \<open>
  \<open>EndpointsContainer._load_api_reference\<close>: the handler prints the exception and returns
  the empty dict.
\<close>

definition endpoints_load_api_reference :: "load_result \<Rightarrow> error + api_reference" where
  "endpoints_load_api_reference loaded =
     (case loaded of Inl e \<Rightarrow> Inr [] | Inr data \<Rightarrow> Inr data)"

text \<open>
  The content of an endpoint file. The text of configs.py is not expanded here:
  \<open>ConfigContent api\<close> stands for the string that \<open>_generate_config_content\<close> computes
  from the catalog \<open>api\<close>.
\<close>

datatype file_content = Text string | ConfigContent api_reference

record EndpointFile =
  ef_name :: string
  ef_content :: file_content

text \<open>\<open>EndpointsContainer._generate_endpoint_files\<close>.\<close>

definition generate_endpoint_files ::
  "(string list \<Rightarrow> string list) \<Rightarrow> api_reference \<Rightarrow> EndpointFile list" where
  "generate_endpoint_files ord api =
     [\<lparr> ef_name = ''paths.py'', ef_content = Text (generate_paths_content api ord) \<rparr>,
      \<lparr> ef_name = ''configs.py'', ef_content = ConfigContent api \<rparr>]"

text \<open>\<open>EndpointsContainer.__init__\<close>: the files of the container, or the exception raised.\<close>

definition endpoints_container ::
  "(string list \<Rightarrow> string list) \<Rightarrow> load_result \<Rightarrow> error + EndpointFile list" where
  "endpoints_container ord loaded =
     (case endpoints_load_api_reference loaded of
        Inl e \<Rightarrow> Inl e
      | Inr api \<Rightarrow> Inr (generate_endpoint_files ord api))"

text \<open>\<open>TestsContainer.__init__\<close>: the files of the container, or the exception raised.\<close>

definition tests_container ::
  "(string list \<Rightarrow> string list) \<Rightarrow> load_result \<Rightarrow> error + TestFile list" where
  "tests_container ord loaded =
     (case tests_load_api_reference loaded of
        Inl e \<Rightarrow> Inl e
      | Inr api \<Rightarrow>
          (case predict_id_usage api ord of
             Inl e \<Rightarrow> Inl e
           | Inr id_mappings \<Rightarrow>
               Inr (generate_test_files id_mappings (get_endpoint_groups api))))"

text \<open>
  \<open>ValidationsContainer.__init__\<close>: the catalog that the container holds for
  \<open>get_files\<close>, or the exception raised.
\<close>

definition validations_container :: "load_result \<Rightarrow> error + api_reference" where
  "validations_container loaded = validations_load_api_reference loaded"

section \<open>The validation-model generator (models_validates.py)\<close>

text \<open>\<open>ValidationsContainer._snake_to_camel\<close>.\<close>

definition snake_to_camel :: "string \<Rightarrow> string" where
  "snake_to_camel name = concat (map capitalize (split (CHR ''_'') name))"

text \<open>
  \<open>ValidationsContainer._generate_model_name\<close>; the schema argument is not read. A field
  name is false as a condition when it is \<open>None\<close> or empty.
\<close>

definition generate_model_name :: "string option \<Rightarrow> bool \<Rightarrow> string" where
  "generate_model_name field_name is_success =
     (if is_success \<and> truthy field_name
      then ''ResponseSuccessBody'' @ snake_to_camel (the field_name)
      else if is_success then ''ResponseSuccessBody''
      else ''ResponseError'')"

text \<open>
  \<open>ValidationsContainer._get_pydantic_type\<close>. An array without \<open>items\<close> takes the type of
  the empty schema, which is \<open>Any\<close>.
\<close>

fun get_pydantic_type :: "schema \<Rightarrow> string option \<Rightarrow> string" where
  "get_pydantic_type (Schema ty fmt properties items required nullable) field_name =
     (if ty = Some ''string'' then ''str''
      else if ty = Some ''integer'' then ''int''
      else if ty = Some ''boolean'' then ''bool''
      else if ty = Some ''array''
      then ''List['' @ (case items of
                          None \<Rightarrow> ''Any''
                        | Some item_schema \<Rightarrow> get_pydantic_type item_schema field_name) @ '']''
      else if ty = Some ''object'' \<or> properties \<noteq> []
      then generate_model_name field_name True
      else ''Any'')"

text \<open>The model that \<open>_generate_pydantic_model\<close> emits for a schema without properties.\<close>

definition empty_model :: "string \<Rightarrow> nat \<Rightarrow> string" where
  "empty_model model_name indent =
     join [CHR 0x0A] [''class '' @ model_name @ ''(BaseModelWithConfig):'',
                      replicate indent (CHR '' '') @ ''pass'']"

text \<open>
  The call of \<open>_generate_pydantic_model\<close> on the empty schema, which the source makes for
  an array without \<open>items\<close>.
\<close>

definition generate_empty :: "string \<Rightarrow> nat \<Rightarrow> string set \<Rightarrow> string \<times> string set" where
  "generate_empty model_name indent generated_models =
     (if model_name \<in> generated_models then ([], generated_models)
      else (empty_model model_name indent, insert model_name generated_models))"

text \<open>
  \<open>ValidationsContainer._generate_pydantic_model\<close>: the code returned and the set
  \<open>generated_models\<close> after the call. The loop over the properties of an object is
  \<open>generate_properties\<close>: its state is the list \<open>lines\<close>, the list \<open>nested_models\<close> and
  the set \<open>generated_models\<close>.
\<close>

function generate_pydantic_model ::
    "schema \<Rightarrow> string \<Rightarrow> string option \<Rightarrow> nat \<Rightarrow> string set \<Rightarrow> string \<times> string set"
  and generate_properties ::
    "(string \<times> schema) list \<Rightarrow> string list \<Rightarrow> nat \<Rightarrow> string list \<times> string list \<times> string set
       \<Rightarrow> string list \<times> string list \<times> string set" where
  "generate_pydantic_model (Schema ty fmt properties items required nullable)
       model_name field_name indent generated_models =
     (if model_name \<in> generated_models then ([], generated_models)
      else
        (let generated_models = insert model_name generated_models;
             indent_str = replicate indent (CHR '' '')
         in if properties = [] \<and> ty \<noteq> Some ''array'' \<and> ty \<noteq> Some ''string''
            then (empty_model model_name indent, generated_models)
            else if ty = Some ''string''
            then (join [CHR 0x0A] [''class '' @ model_name @ ''(RootModel):'',
                                   indent_str @ ''root: str = Field(...)''],
                  generated_models)
            else if ty = Some ''array''
            then
              (let item_model_name =
                     generate_model_name (if truthy field_name then field_name else Some ''items'')
                       True;
                   (item_model_code, generated_models) =
                     (case items of
                        None \<Rightarrow> generate_empty item_model_name indent generated_models
                      | Some item_schema \<Rightarrow>
                          generate_pydantic_model item_schema item_model_name field_name indent
                            generated_models);
                   lines = [''class '' @ model_name @ ''(BaseModelWithConfig):'',
                            indent_str @ ''items: List['' @ item_model_name @ ''] = Field(...)'']
               in (if item_model_code \<noteq> []
                   then item_model_code @ [CHR 0x0A, CHR 0x0A] @ join [CHR 0x0A] lines
                   else join [CHR 0x0A] lines,
                   generated_models))
            else
              (let (lines, nested_models, generated_models) =
                     generate_properties properties required indent
                       ([''class '' @ model_name @ ''(BaseModelWithConfig):''], [],
                        generated_models)
               in (if nested_models \<noteq> []
                   then join [CHR 0x0A, CHR 0x0A] (nested_models @ [join [CHR 0x0A] lines])
                   else join [CHR 0x0A] lines,
                   generated_models))))"
| "generate_properties [] required indent state = state"
| "generate_properties ((prop_name, prop_schema) # properties) required indent
       (lines, nested_models, generated_models) =
     (let indent_str = replicate indent (CHR '' '');
          prop_type = get_pydantic_type prop_schema (Some prop_name);
          is_required = (prop_name \<in> set required \<or> schema_nullable prop_schema = Some False);
          default = (if is_required then ''...'' else ''None'');
          lines = lines @ [indent_str @ prop_name @ '': '' @ prop_type
                             @ '' = Field('' @ default @ '')'']
      in if schema_type prop_schema = Some ''object'' \<or> schema_properties prop_schema \<noteq> []
         then
           (let nested_model_name = generate_model_name (Some prop_name) True;
                (nested_model_code, generated_models) =
                  generate_pydantic_model prop_schema nested_model_name (Some prop_name) indent
                    generated_models
            in generate_properties properties required indent
                 (lines,
                  if nested_model_code \<noteq> [] then nested_models @ [nested_model_code]
                  else nested_models,
                  generated_models))
         else
           (case schema_items prop_schema of
              Some item_schema \<Rightarrow>
                if schema_type prop_schema = Some ''array''
                   \<and> (schema_type item_schema = Some ''object''
                        \<or> schema_properties item_schema \<noteq> [])
                then
                  (let nested_model_name = generate_model_name (Some prop_name) True;
                       (nested_model_code, generated_models) =
                         generate_pydantic_model item_schema nested_model_name (Some prop_name)
                           indent generated_models
                   in generate_properties properties required indent
                        (lines,
                         if nested_model_code \<noteq> [] then nested_models @ [nested_model_code]
                         else nested_models,
                         generated_models))
                else generate_properties properties required indent
                       (lines, nested_models, generated_models)
            | None \<Rightarrow> generate_properties properties required indent
                       (lines, nested_models, generated_models)))"
  by pat_completeness auto
termination
proof -
  have in_items: "size x < size b" if "schema_items b = Some x" for x b :: schema
    using that by (cases b) simp
  show ?thesis
    by (relation "measure (\<lambda>a. case a of
            Inl (s, _) \<Rightarrow> size s
          | Inr (ps, _) \<Rightarrow> size_list (size_prod (\<lambda>x. 0) size) ps)")
      (auto dest: in_items)
qed

section \<open>Notions used to state the properties\<close>

subsection \<open>Identifier mappings\<close>

text \<open>The mapping that \<open>_predict_id_usage\<close> returns for one service.\<close>

definition id_mapping_for ::
  "api_reference \<Rightarrow> (string list \<Rightarrow> string list) \<Rightarrow> string \<Rightarrow> error + id_mapping option" where
  "id_mapping_for api ord service =
     (case predict_id_usage api ord of Inl err \<Rightarrow> Inl err | Inr id_mappings \<Rightarrow> Inr (id_mappings service))"

text \<open>The dict that the first loop of \<open>_predict_id_usage\<close> stores for a POST.\<close>

definition source_mapping :: "string \<Rightarrow> endpoint \<Rightarrow> string \<Rightarrow> id_mapping" where
  "source_mapping service e id_field =
     \<lparr> im_source = ep_path e,
       im_source_test_name =
         ''test_'' @ lower (ep_method e) @ ''_'' @ service @ ''_''
           @ test_name_suffix (ep_endpoint_name e) service,
       im_id_field = id_field,
       im_used_in = [] \<rparr>"

text \<open>The field that \<open>_find_resource_id_field\<close> infers for an endpoint, empty when none.\<close>

definition inferred_field ::
  "api_reference \<Rightarrow> (string list \<Rightarrow> string list) \<Rightarrow> string \<Rightarrow> endpoint \<Rightarrow> string" where
  "inferred_field api ord service e =
     (case find_resource_id_field api ord service (ep_responses e) of
        Inr (Some id_field) \<Rightarrow> id_field
      | _ \<Rightarrow> [])"

text \<open>
  A POST qualifies as an identifier source: a response keyed 200 or 201, and a field
  inferred for it that passes \<open>if id_field:\<close>.
\<close>

definition qualifies ::
  "api_reference \<Rightarrow> (string list \<Rightarrow> string list) \<Rightarrow> string \<Rightarrow> endpoint \<Rightarrow> bool" where
  "qualifies api ord service e =
     (ep_method e = ''POST''
      \<and> (''200'' \<in> set (map fst (ep_responses e)) \<or> ''201'' \<in> set (map fst (ep_responses e)))
      \<and> inferred_field api ord service e \<noteq> [])"

text \<open>The test of the second loop on one parameter of a dependent operation.\<close>

definition uses_id :: "string \<Rightarrow> param \<Rightarrow> bool" where
  "uses_id id_field p =
     (param_type p = ''path''
      \<and> (param_name p = id_field \<or> contains ''id'' (lower (param_name p))))"

text \<open>The paths the second loop appends for the endpoints of one service, in order.\<close>

definition used_paths :: "string \<Rightarrow> endpoint list \<Rightarrow> string list" where
  "used_paths id_field endpoints =
     concat (map (\<lambda>e. if ep_method e \<in> set [''GET'', ''PUT'', ''DELETE'', ''PATCH'']
                       then replicate (length (filter (uses_id id_field) (ep_parameters e))) (ep_path e)
                       else []) endpoints)"

subsection \<open>Emitted tests\<close>

text \<open>
  The lines emitted for a test hold an assignment to the class-level \<open>resource_id\<close>.
\<close>

definition writes_resource_id :: "string list \<Rightarrow> bool" where
  "writes_resource_id lines = list_ex (prefix ''        self.__class__.resource_id = '') lines"

subsection \<open>Endpoint files\<close>

text \<open>The text of paths.py for the empty catalog.\<close>

definition empty_paths_content :: string where
  \<open>empty_paths_content = join [CHR 0x0A]
     [''from dataclasses import dataclass'', ''from typing import Optional'', [],
      ''API_PREFIX = "/api/v1/pages"'',
      [],
      ''@dataclass'',
      ''class Paths:'',
      ''    def get_path(self, service: str, endpoint: str) -> Optional[str]:'',
      ''        svc = getattr(self, service, None)'',
      ''        if svc:'',
      ''            return getattr(svc, endpoint, None)'',
      ''        return None'',
      []]\<close>

subsection \<open>The declarations of a run of the validation-model generator\<close>

text \<open>
  The declarations behind the code: the same run, keeping for every model that is emitted
  its name and its declaration instead of joining the declarations into one string.
\<close>

definition empty_blocks ::
  "string \<Rightarrow> nat \<Rightarrow> string set \<Rightarrow> (string \<times> string) list \<times> string set" where
  "empty_blocks model_name indent generated_models =
     (if model_name \<in> generated_models then ([], generated_models)
      else ([(model_name, empty_model model_name indent)], insert model_name generated_models))"

function model_blocks ::
    "schema \<Rightarrow> string \<Rightarrow> string option \<Rightarrow> nat \<Rightarrow> string set
       \<Rightarrow> (string \<times> string) list \<times> string set"
  and property_blocks ::
    "(string \<times> schema) list \<Rightarrow> string list \<Rightarrow> nat
       \<Rightarrow> string list \<times> (string \<times> string) list \<times> string set
       \<Rightarrow> string list \<times> (string \<times> string) list \<times> string set" where
  "model_blocks (Schema ty fmt properties items required nullable)
       model_name field_name indent generated_models =
     (if model_name \<in> generated_models then ([], generated_models)
      else
        (let generated_models = insert model_name generated_models;
             indent_str = replicate indent (CHR '' '')
         in if properties = [] \<and> ty \<noteq> Some ''array'' \<and> ty \<noteq> Some ''string''
            then ([(model_name, empty_model model_name indent)], generated_models)
            else if ty = Some ''string''
            then ([(model_name,
                    join [CHR 0x0A] [''class '' @ model_name @ ''(RootModel):'',
                                     indent_str @ ''root: str = Field(...)''])],
                  generated_models)
            else if ty = Some ''array''
            then
              (let item_model_name =
                     generate_model_name (if truthy field_name then field_name else Some ''items'')
                       True;
                   (item_blocks, generated_models) =
                     (case items of
                        None \<Rightarrow> empty_blocks item_model_name indent generated_models
                      | Some item_schema \<Rightarrow>
                          model_blocks item_schema item_model_name field_name indent
                            generated_models);
                   lines = [''class '' @ model_name @ ''(BaseModelWithConfig):'',
                            indent_str @ ''items: List['' @ item_model_name @ ''] = Field(...)'']
               in (item_blocks @ [(model_name, join [CHR 0x0A] lines)], generated_models))
            else
              (let (lines, nested_blocks, generated_models) =
                     property_blocks properties required indent
                       ([''class '' @ model_name @ ''(BaseModelWithConfig):''], [],
                        generated_models)
               in (nested_blocks @ [(model_name, join [CHR 0x0A] lines)], generated_models))))"
| "property_blocks [] required indent state = state"
| "property_blocks ((prop_name, prop_schema) # properties) required indent
       (lines, nested_blocks, generated_models) =
     (let indent_str = replicate indent (CHR '' '');
          prop_type = get_pydantic_type prop_schema (Some prop_name);
          is_required = (prop_name \<in> set required \<or> schema_nullable prop_schema = Some False);
          default = (if is_required then ''...'' else ''None'');
          lines = lines @ [indent_str @ prop_name @ '': '' @ prop_type
                             @ '' = Field('' @ default @ '')'']
      in if schema_type prop_schema = Some ''object'' \<or> schema_properties prop_schema \<noteq> []
         then
           (let nested_model_name = generate_model_name (Some prop_name) True;
                (blocks, generated_models) =
                  model_blocks prop_schema nested_model_name (Some prop_name) indent
                    generated_models
            in property_blocks properties required indent
                 (lines, nested_blocks @ blocks, generated_models))
         else
           (case schema_items prop_schema of
              Some item_schema \<Rightarrow>
                if schema_type prop_schema = Some ''array''
                   \<and> (schema_type item_schema = Some ''object''
                        \<or> schema_properties item_schema \<noteq> [])
                then
                  (let nested_model_name = generate_model_name (Some prop_name) True;
                       (blocks, generated_models) =
                         model_blocks item_schema nested_model_name (Some prop_name)
                           indent generated_models
                   in property_blocks properties required indent
                        (lines, nested_blocks @ blocks, generated_models))
                else property_blocks properties required indent
                       (lines, nested_blocks, generated_models)
            | None \<Rightarrow> property_blocks properties required indent
                       (lines, nested_blocks, generated_models)))"
  by pat_completeness auto
termination
proof -
  have in_items: "size x < size b" if "schema_items b = Some x" for x b :: schema
    using that by (cases b) simp
  show ?thesis
    by (relation "measure (\<lambda>a. case a of
            Inl (s, _) \<Rightarrow> size s
          | Inr (ps, _) \<Rightarrow> size_list (size_prod (\<lambda>x. 0) size) ps)")
      (auto dest: in_items)
qed

text \<open>A declaration of the model \<open>name\<close>.\<close>

definition declares :: "string \<times> string \<Rightarrow> bool" where
  "declares block = prefix (''class '' @ fst block @ ''('') (snd block)"

text \<open>
  The blocks \<open>new\<close> are declarations of models with different names, none of them in the
  set \<open>before\<close>, and \<open>after\<close> is the set with their names added.
\<close>

definition fresh_blocks :: "string set \<Rightarrow> (string \<times> string) list \<Rightarrow> string set \<Rightarrow> bool" where
  "fresh_blocks before new after =
     (distinct (map fst new) \<and> set (map fst new) \<inter> before = {}
      \<and> after = before \<union> set (map fst new) \<and> list_all declares new)"

text \<open>
  The line of one property in the declaration of an object model.
\<close>

definition field_line :: "string list \<Rightarrow> nat \<Rightarrow> string \<times> schema \<Rightarrow> string" where
  "field_line required indent p =
     replicate indent (CHR '' '') @ fst p @ '': '' @ get_pydantic_type (snd p) (Some (fst p))
       @ '' = Field(''
       @ (if fst p \<in> set required \<or> schema_nullable (snd p) = Some False
          then ''...'' else ''None'') @ '')''"

text \<open>The code of a list of declarations: the declarations, a blank line between two.\<close>

definition render :: "(string \<times> string) list \<Rightarrow> string" where
  "render blocks = join [CHR 0x0A, CHR 0x0A] (map snd blocks)"

text \<open>
  The strings collected in \<open>nested_models\<close> stand for the declarations \<open>blocks\<close>: joined
  they are the same code, and they are none when there is no declaration.
\<close>

definition same_code :: "string list \<Rightarrow> (string \<times> string) list \<Rightarrow> bool" where
  "same_code codes blocks =
     (join [CHR 0x0A, CHR 0x0A] codes = render blocks \<and> (codes = [] \<longleftrightarrow> blocks = []))"

section \<open>Example catalogs and schemas\<close>

text \<open>
  A service whose creation returns an object with the identifier \<open>itemId\<close>, the path
  parameter of its GET.
\<close>

definition c1_schema :: schema where
  "c1_schema = Schema (Some ''object'') None
     [(''itemId'', Schema (Some ''string'') (Some ''uuid'') [] None [] None)] None [] None"

definition c1_response :: response where
  "c1_response = \<lparr> resp_status_code = IntStatus 201, resp_schema = Some c1_schema,
                   resp_content_type = None \<rparr>"

definition c1_get_data :: endpoint_data where
  "c1_get_data =
     \<lparr> ed_method = Some ''GET'', ed_path = Some ''/items/{itemId}'', ed_description = None,
       ed_parameters = [\<lparr> param_name = ''itemId'', param_type = ''path'' \<rparr>],
       ed_request_body = False,
       ed_responses = [(''200'', \<lparr> resp_status_code = IntStatus 200,
          resp_schema = Some (Schema (Some ''object'') None [] None [] None),
          resp_content_type = None \<rparr>)],
       ed_source_title = None \<rparr>"

definition c1_api :: api_reference where
  "c1_api =
    [(''POST /items'',
       \<lparr> ed_method = Some ''POST'', ed_path = Some ''/items'', ed_description = None,
         ed_parameters = [], ed_request_body = True,
         ed_responses = [(''201'', c1_response)], ed_source_title = None \<rparr>),
     (''GET /items/{itemId}'', c1_get_data)]"

definition c1_post :: endpoint where
  "c1_post =
     \<lparr> ep_path = ''POST /items'', ep_method = ''POST'', ep_description = [],
       ep_parameters = [], ep_request_body = True,
       ep_responses = [(''201'', c1_response)],
       ep_endpoint_name = ''items'', ep_path_parameters = [], ep_title = ''common'' \<rparr>"

definition c1_get :: endpoint where
  "c1_get =
     \<lparr> ep_path = ''GET /items/{itemId}'', ep_method = ''GET'', ep_description = [],
       ep_parameters = [\<lparr> param_name = ''itemId'', param_type = ''path'' \<rparr>],
       ep_request_body = False,
       ep_responses = [(''200'', \<lparr> resp_status_code = IntStatus 200,
          resp_schema = Some (Schema (Some ''object'') None [] None [] None),
          resp_content_type = None \<rparr>)],
       ep_endpoint_name = ''itemId'', ep_path_parameters = [''itemId''],
       ep_title = ''common'' \<rparr>"

text \<open>The same service, the creation answering 202 Accepted.\<close>

definition c1_accepted :: response where
  "c1_accepted = \<lparr> resp_status_code = IntStatus 202, resp_schema = Some c1_schema,
                   resp_content_type = None \<rparr>"

definition c1_accepted_api :: api_reference where
  "c1_accepted_api =
    [(''POST /items'',
       \<lparr> ed_method = Some ''POST'', ed_path = Some ''/items'', ed_description = None,
         ed_parameters = [], ed_request_body = True,
         ed_responses = [(''202'', c1_accepted)], ed_source_title = None \<rparr>),
     (''GET /items/{itemId}'', c1_get_data)]"

definition c1_accepted_post :: endpoint where
  "c1_accepted_post =
     \<lparr> ep_path = ''POST /items'', ep_method = ''POST'', ep_description = [],
       ep_parameters = [], ep_request_body = True,
       ep_responses = [(''202'', c1_accepted)],
       ep_endpoint_name = ''items'', ep_path_parameters = [], ep_title = ''common'' \<rparr>"

text \<open>
  A creation returning a bare UUID as text/plain, and a creation returning a plain string.
\<close>

definition c2_token_responses :: "(string \<times> response) list" where
  "c2_token_responses =
     [(''400'', \<lparr> resp_status_code = IntStatus 400, resp_schema = None,
                  resp_content_type = None \<rparr>),
      (''201'', \<lparr> resp_status_code = IntStatus 201,
                  resp_schema = Some (Schema (Some ''string'') (Some ''uuid'') [] None [] None),
                  resp_content_type = Some ''text/plain'' \<rparr>)]"

definition c2_note_responses :: "(string \<times> response) list" where
  "c2_note_responses =
     [(''200'', \<lparr> resp_status_code = IntStatus 200,
                  resp_schema = Some (Schema (Some ''string'') None [] None [] None),
                  resp_content_type = Some ''application/json'' \<rparr>)]"

definition c2_api :: api_reference where
  "c2_api =
    [(''POST /tokens'',
       \<lparr> ed_method = Some ''POST'', ed_path = Some ''/tokens'', ed_description = None,
         ed_parameters = [], ed_request_body = True,
         ed_responses = c2_token_responses, ed_source_title = None \<rparr>),
     (''POST /tokens/notes'',
       \<lparr> ed_method = Some ''POST'', ed_path = Some ''/tokens/notes'', ed_description = None,
         ed_parameters = [], ed_request_body = True,
         ed_responses = c2_note_responses, ed_source_title = None \<rparr>)]"

text \<open>A service with two creation operations: an object with an identifier, then a string.\<close>

definition c3_api :: api_reference where
  "c3_api =
    [(''POST /items'',
       \<lparr> ed_method = Some ''POST'', ed_path = Some ''/items'', ed_description = None,
         ed_parameters = [], ed_request_body = True,
         ed_responses = [(''201'', \<lparr> resp_status_code = IntStatus 201,
            resp_schema = Some (Schema (Some ''object'') None
               [(''itemId'', Schema (Some ''string'') (Some ''uuid'') [] None [] None)] None [] None),
            resp_content_type = None \<rparr>)],
         ed_source_title = None \<rparr>),
     (''POST /items/bulk'',
       \<lparr> ed_method = Some ''POST'', ed_path = Some ''/items/bulk'', ed_description = None,
         ed_parameters = [], ed_request_body = True,
         ed_responses = [(''200'', \<lparr> resp_status_code = IntStatus 200,
            resp_schema = Some (Schema (Some ''string'') None [] None [] None),
            resp_content_type = None \<rparr>)],
         ed_source_title = None \<rparr>)]"

definition c3_post :: endpoint where
  "c3_post =
     \<lparr> ep_path = ''POST /items'', ep_method = ''POST'', ep_description = [],
       ep_parameters = [], ep_request_body = True,
       ep_responses = [(''201'', \<lparr> resp_status_code = IntStatus 201,
            resp_schema = Some (Schema (Some ''object'') None
               [(''itemId'', Schema (Some ''string'') (Some ''uuid'') [] None [] None)] None [] None),
            resp_content_type = None \<rparr>)],
       ep_endpoint_name = ''items'', ep_path_parameters = [], ep_title = ''common'' \<rparr>"

definition c3_bulk :: endpoint where
  "c3_bulk =
     \<lparr> ep_path = ''POST /items/bulk'', ep_method = ''POST'', ep_description = [],
       ep_parameters = [], ep_request_body = True,
       ep_responses = [(''200'', \<lparr> resp_status_code = IntStatus 200,
            resp_schema = Some (Schema (Some ''string'') None [] None [] None),
            resp_content_type = None \<rparr>)],
       ep_endpoint_name = ''bulk'', ep_path_parameters = [], ep_title = ''common'' \<rparr>"

text \<open>
  The service of the first example with a PUT that answers 201, and the mapping of the
  service.
\<close>

definition c4_put_data :: endpoint_data where
  "c4_put_data =
     \<lparr> ed_method = Some ''PUT'', ed_path = Some ''/items/{itemId}'', ed_description = None,
       ed_parameters = [\<lparr> param_name = ''itemId'', param_type = ''path'' \<rparr>],
       ed_request_body = True,
       ed_responses = [(''201'', c1_response)],
       ed_source_title = None \<rparr>"

definition c4_api :: api_reference where
  "c4_api =
    [(''POST /items'',
       \<lparr> ed_method = Some ''POST'', ed_path = Some ''/items'', ed_description = None,
         ed_parameters = [], ed_request_body = True,
         ed_responses = [(''201'', c1_response)], ed_source_title = None \<rparr>),
     (''PUT /items/{itemId}'', c4_put_data)]"

definition c4_put :: endpoint where
  "c4_put =
     \<lparr> ep_path = ''PUT /items/{itemId}'', ep_method = ''PUT'', ep_description = [],
       ep_parameters = [\<lparr> param_name = ''itemId'', param_type = ''path'' \<rparr>],
       ep_request_body = True,
       ep_responses = [(''201'', c1_response)],
       ep_endpoint_name = ''itemId'', ep_path_parameters = [''itemId''],
       ep_title = ''common'' \<rparr>"

definition c4_mapping :: id_mapping where
  "c4_mapping =
     \<lparr> im_source = ''POST /items'', im_source_test_name = ''test_post_items_default'',
       im_id_field = ''itemId'', im_used_in = [''PUT /items/{itemId}''] \<rparr>"

text \<open>A service whose GET declares no success response.\<close>

definition c5_api :: api_reference where
  "c5_api =
    [(''GET /things'',
       \<lparr> ed_method = Some ''GET'', ed_path = Some ''/things'', ed_description = None,
         ed_parameters = [], ed_request_body = False,
         ed_responses = [(''404'', \<lparr> resp_status_code = IntStatus 404, resp_schema = None,
                                      resp_content_type = None \<rparr>)],
         ed_source_title = None \<rparr>),
     (''DELETE /things/{thingId}'',
       \<lparr> ed_method = Some ''DELETE'', ed_path = Some ''/things/{thingId}'',
         ed_description = None,
         ed_parameters = [\<lparr> param_name = ''thingId'', param_type = ''path'' \<rparr>],
         ed_request_body = False,
         ed_responses = [(''204'', \<lparr> resp_status_code = IntStatus 204, resp_schema = None,
                                      resp_content_type = None \<rparr>)],
         ed_source_title = None \<rparr>)]"

definition c5_get :: endpoint where
  "c5_get =
     \<lparr> ep_path = ''GET /things'', ep_method = ''GET'', ep_description = [],
       ep_parameters = [], ep_request_body = False,
       ep_responses = [(''404'', \<lparr> resp_status_code = IntStatus 404, resp_schema = None,
                                    resp_content_type = None \<rparr>)],
       ep_endpoint_name = ''things'', ep_path_parameters = [], ep_title = ''common'' \<rparr>"

definition c5_delete :: endpoint where
  "c5_delete =
     \<lparr> ep_path = ''DELETE /things/{thingId}'', ep_method = ''DELETE'', ep_description = [],
       ep_parameters = [\<lparr> param_name = ''thingId'', param_type = ''path'' \<rparr>],
       ep_request_body = False,
       ep_responses = [(''204'', \<lparr> resp_status_code = IntStatus 204, resp_schema = None,
                                    resp_content_type = None \<rparr>)],
       ep_endpoint_name = ''thingId'', ep_path_parameters = [''thingId''],
       ep_title = ''common'' \<rparr>"

text \<open>The operations GET, POST, DELETE of one service, in this order.\<close>

definition c5_ordered :: "endpoint list" where
  "c5_ordered = [c1_get, c1_post, c5_delete]"

text \<open>A catalog with one endpoint under /users/profile, and the record the test-group
  classifier makes of it.\<close>

definition c6_api :: api_reference where
  "c6_api = [(''GET /users/profile/settings'',
       \<lparr> ed_method = Some ''GET'', ed_path = Some ''/users/profile/settings'',
         ed_description = None, ed_parameters = [], ed_request_body = False,
         ed_responses = [], ed_source_title = None \<rparr>)]"

definition c6_settings :: endpoint where
  "c6_settings =
     \<lparr> ep_path = ''GET /users/profile/settings'', ep_method = ''GET'',
       ep_description = [], ep_parameters = [], ep_request_body = False,
       ep_responses = [], ep_endpoint_name = ''settings'', ep_path_parameters = [],
       ep_title = ''common'' \<rparr>"

text \<open>Two sub-objects of the same structure under the field names \<open>a\<close> and \<open>b\<close>.\<close>

definition c8_leaf :: schema where
  "c8_leaf = Schema (Some ''object'') None
     [(''v'', Schema (Some ''string'') None [] None [] None)] None [] None"

definition c8_identical :: schema where
  "c8_identical = Schema (Some ''object'') None [(''a'', c8_leaf), (''b'', c8_leaf)] None [] None"

text \<open>
  Two sub-objects of the same structure under the same field name \<open>x\<close>, one in the
  property \<open>a\<close> and one in the property \<open>b\<close>.
\<close>

definition c8_inner :: schema where
  "c8_inner = Schema (Some ''object'') None [(''x'', c8_leaf)] None [] None"

definition c8_same_name :: schema where
  "c8_same_name = Schema (Some ''object'') None [(''a'', c8_inner), (''b'', c8_inner)] None [] None"

text \<open>
  A service whose GET has two path parameters with \<open>id\<close> in their names, and the mapping of
  the service.
\<close>

definition c10_api :: api_reference where
  "c10_api =
    [(''POST /orders'',
       \<lparr> ed_method = Some ''POST'', ed_path = Some ''/orders'', ed_description = None,
         ed_parameters = [], ed_request_body = True,
         ed_responses = [(''201'', \<lparr> resp_status_code = IntStatus 201,
            resp_schema = Some (Schema (Some ''object'') None
               [(''orderId'', Schema (Some ''string'') (Some ''uuid'') [] None [] None)] None [] None),
            resp_content_type = None \<rparr>)],
         ed_source_title = None \<rparr>),
     (''GET /orders/{orderId}/lines/{lineId}'',
       \<lparr> ed_method = Some ''GET'', ed_path = Some ''/orders/{orderId}/lines/{lineId}'',
         ed_description = None,
         ed_parameters = [\<lparr> param_name = ''orderId'', param_type = ''path'' \<rparr>,
                          \<lparr> param_name = ''lineId'', param_type = ''path'' \<rparr>],
         ed_request_body = False,
         ed_responses = [(''200'', \<lparr> resp_status_code = IntStatus 200,
            resp_schema = Some (Schema (Some ''object'') None [] None [] None),
            resp_content_type = None \<rparr>)],
         ed_source_title = None \<rparr>)]"

definition c10_mapping :: id_mapping where
  "c10_mapping =
     \<lparr> im_source = ''POST /orders'', im_source_test_name = ''test_post_orders_default'',
       im_id_field = ''orderId'',
       im_used_in = [''GET /orders/{orderId}/lines/{lineId}'',
                     ''GET /orders/{orderId}/lines/{lineId}''] \<rparr>"

section \<open>Properties of the string operations\<close>

lemma replace_from_single:
  "replace_from [a] new s = concat (map (\<lambda>c. if c = a then new else [c]) s)"
  by (induction s) auto

lemma replace_single:
  "replace [a] new s = concat (map (\<lambda>c. if c = a then new else [c]) s)"
  by (simp add: replace_def replace_from_single)

lemma replace_single_delete: "replace [a] [] s = filter (\<lambda>c. c \<noteq> a) s"
  by (induction s) (simp_all add: replace_single)

lemma replace_single_char: "replace [a] [b] s = map (\<lambda>c. if c = a then b else c) s"
  by (induction s) (simp_all add: replace_single)

lemma clean_name_map_filter:
  "clean_name s =
     map (\<lambda>c. if c = CHR ''-'' \<or> c = CHR ''.'' \<or> c = CHR '' '' then CHR ''_'' else c)
       (filter (\<lambda>c. c \<noteq> CHR ''{'' \<and> c \<noteq> CHR ''}'') s)"
  by (induction s) (simp_all add: clean_name_def replace_single_delete replace_single_char)

lemma lower_char_idem: "lower_char (lower_char c) = lower_char c"
  by (auto simp: lower_char_def Let_def)

lemma lower_fixed: "(\<forall>c \<in> set s. lower_char c = c) \<Longrightarrow> lower s = s"
  by (simp add: lower_def map_idI)

lemma lower_chars_fixed: "\<forall>c \<in> set (lower s). lower_char c = c"
  by (simp add: lower_def lower_char_idem)

lemma clean_name_chars:
  "c \<in> set (clean_name s) \<Longrightarrow> c = CHR ''_'' \<or> c \<in> set s"
  by (auto simp: clean_name_map_filter)

lemma lower_char_underscore: "lower_char CHR ''_'' = CHR ''_''"
  by (simp add: lower_char_def)

lemma join_first_prefix: "prefix x (join sep (x # xs))"
  by (cases xs) simp_all

lemma join_snoc: "xs \<noteq> [] \<Longrightarrow> join sep (xs @ [y]) = join sep xs @ sep @ y"
  by (induction sep xs rule: join.induct) simp_all

lemma join_append:
  "xs \<noteq> [] \<Longrightarrow> ys \<noteq> [] \<Longrightarrow> join sep (xs @ ys) = join sep xs @ sep @ join sep ys"
proof (induction sep xs rule: join.induct)
  case (1 sep)
  then show ?case by simp
next
  case (2 sep x)
  then show ?case by (cases ys) simp_all
next
  case (3 sep x y ys')
  then show ?case by simp
qed

lemma join_not_empty: "x \<noteq> [] \<Longrightarrow> join sep (x # xs) \<noteq> []"
  by (cases xs) simp_all

lemma filter_if: "filter P (if c then xs else ys) = (if c then filter P xs else filter P ys)"
  by simp

lemma list_ex_if: "list_ex P (if c then xs else ys) = (if c then list_ex P xs else list_ex P ys)"
  by simp

lemma concat_map_optional:
  "concat (map (\<lambda>x. if P x then [] else [f x]) xs) = map f (filter (\<lambda>x. \<not> P x) xs)"
  by (induction xs) simp_all

section \<open>Properties of the endpoint groups\<close>

lemma groups_append_keys:
  "map fst (groups_append groups service e) =
     (if service \<in> set (map fst groups) then map fst groups else map fst groups @ [service])"
  by (auto simp: groups_append_def split: prod.splits)

lemma groups_append_distinct:
  "distinct (map fst groups) \<Longrightarrow> distinct (map fst (groups_append groups service e))"
  by (simp add: groups_append_keys)

lemma group_endpoint_distinct:
  "distinct (map fst groups) \<Longrightarrow> distinct (map fst (group_endpoint api item groups))"
  by (simp add: group_endpoint_def Let_def groups_append_distinct split: prod.splits)

lemma fold_group_endpoint_distinct:
  "distinct (map fst groups) \<Longrightarrow> distinct (map fst (fold (group_endpoint api) items groups))"
  by (induction items arbitrary: groups) (simp_all add: group_endpoint_distinct)

lemma get_endpoint_groups_distinct: "distinct (map fst (get_endpoint_groups api))"
  by (simp add: get_endpoint_groups_def fold_group_endpoint_distinct)

lemma service_cases:
  "fst (get_service_and_title api k) = ''profile''
   \<or> fst (get_service_and_title api k) = ''common''
   \<or> (\<exists>p. fst (get_service_and_title api k) =
          filter (\<lambda>c. c \<noteq> CHR ''}'') (filter (\<lambda>c. c \<noteq> CHR ''{'') (lower p)))"
  by (auto simp: get_service_and_title_def Let_def replace_single_delete split: list.splits)

lemma service_chars_fixed:
  "\<forall>c \<in> set (clean_name (fst (get_service_and_title api k))). lower_char c = c"
proof -
  have "\<forall>c \<in> set ''profile''. lower_char c = c" by (simp add: lower_char_def)
  moreover have "\<forall>c \<in> set ''common''. lower_char c = c" by (simp add: lower_char_def)
  moreover have "\<forall>c \<in> set (filter (\<lambda>c. c \<noteq> CHR ''}'') (filter (\<lambda>c. c \<noteq> CHR ''{'') (lower p))).
      lower_char c = c" for p
    using lower_chars_fixed [of p] by simp
  ultimately have a: "\<forall>c \<in> set (fst (get_service_and_title api k)). lower_char c = c"
    using service_cases [of api k] by metis
  show ?thesis
    using a clean_name_chars lower_char_underscore by metis
qed

lemma group_endpoint_keys:
  "set (map fst (group_endpoint api item groups)) =
     insert (clean_name (fst (get_service_and_title api (fst item)))) (set (map fst groups))"
  by (simp add: group_endpoint_def Let_def case_prod_beta groups_append_keys insert_absorb)

lemma fold_group_endpoint_keys:
  "set (map fst (fold (group_endpoint api) items groups)) =
     (\<lambda>item. clean_name (fst (get_service_and_title api (fst item)))) ` set items
       \<union> set (map fst groups)"
proof (induction items arbitrary: groups)
  case Nil
  show ?case by simp
next
  case (Cons item items)
  show ?case
    unfolding fold_simps Cons.IH group_endpoint_keys by auto
qed

lemma group_key_lower:
  assumes "map_of (get_endpoint_groups api) service = Some endpoints"
  shows "lower service = service"
proof -
  from assms have "service \<in> set (map fst (get_endpoint_groups api))"
    by (metis map_of_SomeD image_eqI fst_conv set_map)
  then obtain item :: "string \<times> endpoint_data" where "service = clean_name (fst (get_service_and_title api (fst item)))"
    unfolding get_endpoint_groups_def fold_group_endpoint_keys by auto
  then show ?thesis
    using service_chars_fixed lower_fixed by simp
qed

lemma groups_append_endpoints:
  "set (concat (map snd (groups_append groups service e))) =
     insert e (set (concat (map snd groups)))"
  by (induction groups) (auto simp: groups_append_def split: if_splits)

lemma group_endpoint_endpoints:
  "set (concat (map snd (group_endpoint api item groups))) =
     insert (endpoint_record api item) (set (concat (map snd groups)))"
  unfolding group_endpoint_def Let_def case_prod_beta by (rule groups_append_endpoints)

lemma fold_group_endpoint_endpoints:
  "set (concat (map snd (fold (group_endpoint api) items groups))) =
     endpoint_record api ` set items \<union> set (concat (map snd groups))"
proof (induction items arbitrary: groups)
  case Nil
  show ?case by simp
next
  case (Cons item items)
  show ?case
    unfolding fold_simps Cons.IH group_endpoint_endpoints by auto
qed

lemma group_member_record:
  assumes "map_of (get_endpoint_groups api) service = Some endpoints"
    and "e \<in> set endpoints"
  shows "\<exists>item \<in> set api. e = endpoint_record api item"
proof -
  from assms(1) have "(service, endpoints) \<in> set (get_endpoint_groups api)"
    by (rule map_of_SomeD)
  with assms(2) have "e \<in> set (concat (map snd (get_endpoint_groups api)))"
    by force
  then show ?thesis
    unfolding get_endpoint_groups_def fold_group_endpoint_endpoints by auto
qed

lemma endpoint_record_name:
  "ep_endpoint_name (endpoint_record api item)
     = clean_name (last (split (CHR ''/'') (ep_path (endpoint_record api item))))"
  by (simp add: endpoint_record_def Let_def case_prod_beta)

section \<open>Properties of the identifier inference\<close>

lemma find_resource_id_field_total:
  assumes "map_of (get_endpoint_groups api) service = Some endpoints"
  shows "\<exists>r. find_resource_id_field api ord service responses = Inr r"
  using assms
  by (auto simp: find_resource_id_field_def get_path_parameters_def Let_def
      split: option.splits prod.splits)

lemma record_codes_success_codes:
  assumes "find_resource_id_field api ord service (ep_responses e) = Inr r"
    and "ep_method e = ''POST''"
  shows "record_codes api ord service e [''200'', ''201''] m =
     Inr (if qualifies api ord service e
          then m(service \<mapsto> source_mapping service e (inferred_field api ord service e))
          else m)"
  using assms
  by (cases r) (auto simp: qualifies_def inferred_field_def source_mapping_def)

lemma record_sources_last:
  assumes "map_of (get_endpoint_groups api) service = Some endpoints"
  shows "record_sources api ord service es m =
     Inr (let qs = filter (qualifies api ord service) es in
          if qs = [] then m
          else m(service \<mapsto> source_mapping service (last qs) (inferred_field api ord service (last qs))))"
proof (induction es arbitrary: m)
  case Nil
  show ?case by simp
next
  case (Cons e es)
  obtain r where r: "find_resource_id_field api ord service (ep_responses e) = Inr r"
    using find_resource_id_field_total [OF assms] by blast
  show ?case
  proof (cases "ep_method e = ''POST''")
    case True
    then show ?thesis
      using Cons.IH record_codes_success_codes [OF r True]
      by (simp add: Let_def)
  next
    case False
    then have "\<not> qualifies api ord service e" by (simp add: qualifies_def)
    with False show ?thesis using Cons.IH by (simp add: Let_def)
  qed
qed

lemma record_services_map:
  assumes "distinct (map fst groups)"
    and "\<forall>s \<in> set (map fst groups). s \<in> dom (map_of (get_endpoint_groups api))"
  shows "\<exists>m'. record_services api ord groups m = Inr m' \<and>
     (\<forall>s. m' s =
        (case map_of groups s of
           None \<Rightarrow> m s
         | Some es \<Rightarrow>
             (let qs = filter (qualifies api ord s) es in
              if qs = [] then m s
              else Some (source_mapping s (last qs) (inferred_field api ord s (last qs))))))"
  using assms
proof (induction groups arbitrary: m)
  case Nil
  show ?case by simp
next
  case (Cons g groups)
  obtain service es where g: "g = (service, es)" by (cases g)
  from Cons.prems g obtain endpoints where
    "map_of (get_endpoint_groups api) service = Some endpoints" by auto
  note rs = record_sources_last [OF this, of ord es m]
  define m1 where "m1 = (let qs = filter (qualifies api ord service) es in
          if qs = [] then m
          else m(service \<mapsto> source_mapping service (last qs) (inferred_field api ord service (last qs))))"
  have rs1: "record_sources api ord service es m = Inr m1"
    using rs by (simp add: m1_def)
  from Cons.prems have d: "distinct (map fst groups)"
    and k: "\<forall>s \<in> set (map fst groups). s \<in> dom (map_of (get_endpoint_groups api))"
    and notin: "service \<notin> set (map fst groups)"
    by (auto simp: g)
  from Cons.IH [OF d k, of m1] obtain m' where
    m': "record_services api ord groups m1 = Inr m'"
    and m'_eq: "\<And>s. m' s =
        (case map_of groups s of
           None \<Rightarrow> m1 s
         | Some es \<Rightarrow>
             (let qs = filter (qualifies api ord s) es in
              if qs = [] then m1 s
              else Some (source_mapping s (last qs) (inferred_field api ord s (last qs)))))"
    by blast
  have none: "map_of groups service = None"
    using notin by (simp add: map_of_eq_None_iff)
  have "record_services api ord (g # groups) m = Inr m'"
    by (simp add: g rs1 m')
  moreover have "\<forall>s. m' s =
        (case map_of (g # groups) s of
           None \<Rightarrow> m s
         | Some es \<Rightarrow>
             (let qs = filter (qualifies api ord s) es in
              if qs = [] then m s
              else Some (source_mapping s (last qs) (inferred_field api ord s (last qs)))))"
  proof
    fix s
    show "m' s =
        (case map_of (g # groups) s of
           None \<Rightarrow> m s
         | Some es \<Rightarrow>
             (let qs = filter (qualifies api ord s) es in
              if qs = [] then m s
              else Some (source_mapping s (last qs) (inferred_field api ord s (last qs)))))"
    proof (cases "s = service")
      case True
      then show ?thesis
        by (simp add: m'_eq none g m1_def Let_def)
    next
      case False
      then have "m1 s = m s" by (simp add: m1_def Let_def)
      with False show ?thesis
        by (simp add: m'_eq g Let_def split: option.splits)
    qed
  qed
  ultimately show ?case by blast
qed

lemma use_params_append:
  assumes "m service = Some mp"
  shows "use_params service e ps m =
     m(service \<mapsto> mp\<lparr> im_used_in := im_used_in mp
          @ replicate (length (filter (uses_id (im_id_field mp)) ps)) (ep_path e) \<rparr>)"
  using assms
proof (induction ps arbitrary: m mp)
  case Nil
  then show ?case by (simp add: fun_upd_idem)
next
  case (Cons p ps)
  show ?case
  proof (cases "uses_id (im_id_field mp) p")
    case True
    let ?mp = "mp\<lparr> im_used_in := im_used_in mp @ [ep_path e] \<rparr>"
    have "use_params service e (p # ps) m = use_params service e ps (m(service \<mapsto> ?mp))"
      using True Cons.prems by (auto simp: uses_id_def)
    also have "\<dots> = (m(service \<mapsto> ?mp))(service \<mapsto> ?mp\<lparr> im_used_in := im_used_in ?mp
          @ replicate (length (filter (uses_id (im_id_field ?mp)) ps)) (ep_path e) \<rparr>)"
      by (rule Cons.IH) simp
    finally show ?thesis using True
      by (simp add: replicate_append_same)
  next
    case False
    then have "use_params service e (p # ps) m = use_params service e ps m"
      using Cons.prems by (auto simp: uses_id_def)
    then show ?thesis
      using False Cons.IH [where m = m and mp = mp, OF Cons.prems] by simp
  qed
qed

lemma use_endpoints_append:
  assumes "m service = Some mp"
  shows "use_endpoints service es m =
     m(service \<mapsto> mp\<lparr> im_used_in := im_used_in mp @ used_paths (im_id_field mp) es \<rparr>)"
  using assms
proof (induction es arbitrary: m mp)
  case Nil
  then show ?case by (simp add: used_paths_def fun_upd_idem)
next
  case (Cons e es)
  show ?case
  proof (cases "ep_method e \<in> set [''GET'', ''PUT'', ''DELETE'', ''PATCH'']")
    case True
    let ?mp = "mp\<lparr> im_used_in := im_used_in mp
          @ replicate (length (filter (uses_id (im_id_field mp)) (ep_parameters e))) (ep_path e) \<rparr>"
    have "use_endpoints service (e # es) m = use_endpoints service es (m(service \<mapsto> ?mp))"
      using True use_params_append [where m = m and service = service and e = e
          and ps = "ep_parameters e", OF Cons.prems] by simp
    also have "\<dots> = (m(service \<mapsto> ?mp))(service \<mapsto>
         ?mp\<lparr> im_used_in := im_used_in ?mp @ used_paths (im_id_field ?mp) es \<rparr>)"
      by (rule Cons.IH) simp
    finally show ?thesis using True by (simp add: used_paths_def)
  next
    case False
    then have "use_endpoints service (e # es) m = use_endpoints service es m" by simp
    then show ?thesis
      using False Cons.IH [where m = m and mp = mp, OF Cons.prems] by (simp add: used_paths_def)
  qed
qed

lemma use_services_map:
  assumes "distinct (map fst groups)"
  shows "use_services groups m s =
     (case map_of groups s of
        None \<Rightarrow> m s
      | Some es \<Rightarrow>
          (case m s of
             None \<Rightarrow> None
           | Some mp \<Rightarrow> Some (mp\<lparr> im_used_in := im_used_in mp @ used_paths (im_id_field mp) es \<rparr>)))"
  using assms
proof (induction groups arbitrary: m)
  case Nil
  show ?case by simp
next
  case (Cons g groups)
  obtain service es where g: "g = (service, es)" by (cases g)
  from Cons.prems have d: "distinct (map fst groups)"
    and none: "map_of groups service = None"
    by (auto simp: g map_of_eq_None_iff)
  show ?case
  proof (cases "m service")
    case None
    then have step: "use_services (g # groups) m = use_services groups m"
      by (simp add: g dom_def)
    show ?thesis
    proof (cases "s = service")
      case True
      then show ?thesis unfolding step using None none Cons.IH [OF d, of m] by (simp add: g)
    next
      case False
      then show ?thesis unfolding step by (simp add: Cons.IH [OF d] g)
    qed
  next
    case (Some mp)
    define m2 where
      "m2 = m(service \<mapsto> mp\<lparr> im_used_in := im_used_in mp @ used_paths (im_id_field mp) es \<rparr>)"
    have step: "use_services (g # groups) m = use_services groups m2"
      using Some use_endpoints_append [where m = m and service = service and es = es, OF Some]
      by (simp add: g dom_def m2_def)
    have m2_service:
      "m2 service = Some (mp\<lparr> im_used_in := im_used_in mp @ used_paths (im_id_field mp) es \<rparr>)"
      by (simp add: m2_def)
    have m2_other: "s \<noteq> service \<Longrightarrow> m2 s = m s"
      by (simp add: m2_def)
    show ?thesis
    proof (cases "s = service")
      case True
      then show ?thesis unfolding step
        using Some none Cons.IH [OF d, of m2] m2_service by (simp add: g)
    next
      case False
      then show ?thesis unfolding step
        using Cons.IH [OF d, of m2] m2_other by (simp add: g split: option.splits)
    qed
  qed
qed

lemma id_mapping_for_service:
  assumes "map_of (get_endpoint_groups api) service = Some es"
  shows "id_mapping_for api ord service =
     Inr (let qs = filter (qualifies api ord service) es in
          if qs = [] then None
          else Some ((source_mapping service (last qs) (inferred_field api ord service (last qs)))
                 \<lparr> im_used_in := used_paths (inferred_field api ord service (last qs)) es \<rparr>))"
proof -
  let ?groups = "get_endpoint_groups api"
  have d: "distinct (map fst ?groups)" by (rule get_endpoint_groups_distinct)
  have k: "\<forall>s \<in> set (map fst ?groups). s \<in> dom (map_of ?groups)"
    by (simp add: dom_map_of_conv_image_fst)
  from record_services_map [OF d k, of ord Map.empty] obtain m' where
    m': "record_services api ord ?groups Map.empty = Inr m'"
    and m'_eq: "\<And>s. m' s =
        (case map_of ?groups s of
           None \<Rightarrow> None
         | Some es \<Rightarrow>
             (let qs = filter (qualifies api ord s) es in
              if qs = [] then None
              else Some (source_mapping s (last qs) (inferred_field api ord s (last qs)))))"
    by auto
  have "id_mapping_for api ord service = Inr (use_services ?groups m' service)"
    by (simp add: id_mapping_for_def predict_id_usage_def Let_def m')
  then show ?thesis
    by (simp add: use_services_map [OF d] assms m'_eq Let_def source_mapping_def)
qed

lemma used_paths_member:
  assumes "g \<in> set endpoints"
    and "ep_method g \<in> set [''GET'', ''PUT'', ''DELETE'', ''PATCH'']"
    and "q \<in> set (ep_parameters g)"
    and "uses_id id_field q"
  shows "ep_path g \<in> set (used_paths id_field endpoints)"
proof -
  from assms(3,4) have "filter (uses_id id_field) (ep_parameters g) \<noteq> []"
    by (auto simp: filter_empty_conv)
  then have "ep_path g \<in> set (replicate (length (filter (uses_id id_field) (ep_parameters g)))
      (ep_path g))"
    by simp
  with assms(1,2) show ?thesis
    unfolding used_paths_def by (auto simp: image_iff intro!: bexI [of _ g])
qed

section \<open>Properties of the emitted tests\<close>

lemma test_method_def_lines:
  "filter (prefix ''    async def '') (test_method ms service title e) =
     (if success_response (ep_responses e) = None then []
      else [''    async def '' @ test_name service e @ ''(self, domain, api_client, models):''])"
proof (cases "success_response (ep_responses e)")
  case None
  then show ?thesis by (simp add: test_method_def Let_def)
next
  case (Some r)
  then show ?thesis
    by (simp add: test_method_def Let_def sq_def chosen_field_words_def filter_if
        cong del: if_weak_cong split del: if_split)
qed

lemma test_method_class_lines:
  "filter (prefix ''class '') (test_method ms service title e) = []"
proof (cases "success_response (ep_responses e)")
  case None
  then show ?thesis by (simp add: test_method_def Let_def)
next
  case (Some r)
  then show ?thesis
    by (simp add: test_method_def Let_def sq_def chosen_field_words_def filter_if
        cong del: if_weak_cong split del: if_split)
qed

lemma test_methods_def_lines:
  "filter (prefix ''    async def '') (concat (map (test_method ms service title) es)) =
     map (\<lambda>e. ''    async def '' @ test_name service e @ ''(self, domain, api_client, models):'')
       (filter (\<lambda>e. success_response (ep_responses e) \<noteq> None) es)"
  by (simp only: filter_concat map_map comp_def test_method_def_lines concat_map_optional)

lemma test_methods_class_lines:
  "filter (prefix ''class '') (concat (map (test_method ms service title) es)) = []"
  by (simp add: filter_concat comp_def test_method_class_lines)

section \<open>Properties of the endpoint files\<close>

lemma set_order_empty: "set_order ord \<Longrightarrow> ord [] = []"
proof -
  assume "set_order ord"
  then have "set (ord []) = set []" unfolding set_order_def by blast
  then show "ord [] = []" by simp
qed

lemma generate_paths_content_empty:
  "set_order ord \<Longrightarrow> generate_paths_content [] ord = empty_paths_content"
  by (simp add: generate_paths_content_def paths_content_def path_services_def unique_paths_def
      empty_paths_content_def set_order_empty)

section \<open>Properties of the validation-model generator\<close>

lemma get_pydantic_type_empty: "get_pydantic_type empty_schema f = ''Any''"
  by (simp add: empty_schema_def)

lemma generate_pydantic_model_empty:
  "generate_pydantic_model empty_schema n f indent gm = generate_empty n indent gm"
  by (simp add: empty_schema_def generate_empty_def)

lemma fresh_blocks_Nil: "fresh_blocks gm [] gm"
  by (simp add: fresh_blocks_def)

lemma fresh_blocks_single:
  "n \<notin> gm \<Longrightarrow> declares (n, c) \<Longrightarrow> fresh_blocks gm [(n, c)] (insert n gm)"
  by (simp add: fresh_blocks_def)

lemma fresh_blocks_append:
  "fresh_blocks gm xs gm1 \<Longrightarrow> fresh_blocks gm1 ys gm2 \<Longrightarrow> fresh_blocks gm (xs @ ys) gm2"
  by (auto simp: fresh_blocks_def)

lemma fresh_blocks_owner:
  assumes "n \<notin> gm" and "fresh_blocks (insert n gm) xs gm1" and "declares (n, c)"
  shows "fresh_blocks gm (xs @ [(n, c)]) gm1"
  using assms by (auto simp: fresh_blocks_def)

lemma declares_class: "declares (n, ''class '' @ n @ ''('' @ rest)"
  by (simp add: declares_def)

lemma declares_empty_model: "declares (n, empty_model n indent)"
  by (simp add: declares_def empty_model_def)

lemma declares_lines:
  "declares (n, join sep ((''class '' @ n @ ''('' @ rest) # others))"
  unfolding declares_def fst_conv snd_conv
  by (rule prefix_order.trans [OF _ join_first_prefix]) simp

lemma declares_not_empty: "declares b \<Longrightarrow> snd b \<noteq> []"
  by (auto simp: declares_def)

lemma empty_blocks_fresh:
  "fresh_blocks gm (fst (empty_blocks n indent gm)) (snd (empty_blocks n indent gm))"
  by (simp add: empty_blocks_def fresh_blocks_Nil fresh_blocks_single declares_empty_model)

lemma property_blocks_lines:
  "fst (property_blocks ps req indent st) = fst st @ map (field_line req indent) ps"
proof (induction ps arbitrary: st)
  case Nil
  show ?case by simp
next
  case (Cons p ps)
  obtain prop_name prop_schema where p: "p = (prop_name, prop_schema)" by (cases p)
  obtain lines nested gm where st: "st = (lines, nested, gm)" by (cases st)
  show ?case
    unfolding p st
    by (simp add: Let_def case_prod_beta field_line_def Cons.IH split: option.splits)
qed

lemma model_blocks_fresh:
  "fresh_blocks gm (fst (model_blocks s n f indent gm)) (snd (model_blocks s n f indent gm))"
  and property_blocks_fresh:
  "\<exists>new. fst (snd (property_blocks ps req indent st)) = fst (snd st) @ new
      \<and> fresh_blocks (snd (snd st)) new (snd (snd (property_blocks ps req indent st)))"
proof (induction s n f indent gm and ps req indent st
    rule: model_blocks_property_blocks.induct)
  case (1 ty fmt properties items required nullable model_name field_name indent generated_models)
  let ?s = "Schema ty fmt properties items required nullable"
  let ?gm = "insert model_name generated_models"
  show ?case
  proof (cases "model_name \<in> generated_models")
    case True
    then show ?thesis by (simp add: fresh_blocks_Nil)
  next
    case new: False
    consider (leaf) "properties = [] \<and> ty \<noteq> Some ''array'' \<and> ty \<noteq> Some ''string''"
      | (str) "ty = Some ''string''"
      | (arr) "ty = Some ''array''"
      | (obj) "\<not> (properties = [] \<and> ty \<noteq> Some ''array'' \<and> ty \<noteq> Some ''string'')"
          "ty \<noteq> Some ''string''" "ty \<noteq> Some ''array''"
      by blast
    then show ?thesis
    proof cases
      case leaf
      then show ?thesis using new
        by (simp add: fresh_blocks_single declares_empty_model)
    next
      case str
      then show ?thesis using new
        by (simp add: fresh_blocks_single declares_def)
    next
      case arr
      define item_name where "item_name =
        generate_model_name (if truthy field_name then field_name else Some ''items'') True"
      define r where "r = (case items of
                        None \<Rightarrow> empty_blocks item_name indent ?gm
                      | Some item_schema \<Rightarrow>
                          model_blocks item_schema item_name field_name indent ?gm)"
      have inner: "fresh_blocks ?gm (fst r) (snd r)"
      proof (cases items)
        case None
        then show ?thesis by (simp add: r_def empty_blocks_fresh)
      next
        case (Some item_schema)
        then show ?thesis
          using "1.IH"(1) [OF new refl refl _ _ arr refl Some] arr
          by (simp add: r_def item_name_def)
      qed
      have "model_blocks ?s model_name field_name indent generated_models =
          (fst r @ [(model_name, join [CHR 0x0A]
              [''class '' @ model_name @ ''(BaseModelWithConfig):'',
               replicate indent (CHR '' '') @ ''items: List['' @ item_name @ ''] = Field(...)''])],
           snd r)"
        using new arr unfolding r_def item_name_def
        by (simp add: Let_def case_prod_beta split del: if_split)
      then show ?thesis
        using fresh_blocks_owner [OF new inner] by (simp add: declares_def)
    next
      case obj
      define r where "r = property_blocks properties required indent
                       ([''class '' @ model_name @ ''(BaseModelWithConfig):''], [], ?gm)"
      from "1.IH"(2) [OF new refl refl obj] obtain fresh where
        "fst (snd r) = fresh" and inner: "fresh_blocks ?gm fresh (snd (snd r))"
        by (auto simp: r_def)
      have "model_blocks ?s model_name field_name indent generated_models =
          (fst (snd r) @ [(model_name, join [CHR 0x0A] (fst r))], snd (snd r))"
        using new obj by (simp add: Let_def r_def case_prod_beta)
      moreover obtain others where
        "fst r = (''class '' @ model_name @ ''(BaseModelWithConfig):'') # others"
        by (simp add: r_def property_blocks_lines)
      then have "declares (model_name, join [CHR 0x0A] (fst r))"
        using declares_lines [of model_name "[CHR 0x0A]" "''BaseModelWithConfig):''" others]
        by simp
      ultimately show ?thesis
        using fresh_blocks_owner [OF new inner] \<open>fst (snd r) = fresh\<close>
        by simp
    qed
  qed
next
  case (2 required indent state)
  show ?case using fresh_blocks_Nil by simp
next
  case (3 prop_name prop_schema properties required indent lines nested_blocks generated_models)
  define lines' where "lines' = lines @
      [replicate indent (CHR '' '') @ prop_name @ '': ''
        @ get_pydantic_type prop_schema (Some prop_name) @ '' = Field(''
        @ (if prop_name \<in> set required \<or> schema_nullable prop_schema = Some False
           then ''...'' else ''None'') @ '')'']"
  define name where "name = generate_model_name (Some prop_name) True"
  let ?st = "(lines, nested_blocks, generated_models)"
  let ?call = "property_blocks ((prop_name, prop_schema) # properties) required indent ?st"
  have nested: "\<exists>new. fst (snd ?call) = nested_blocks @ new
      \<and> fresh_blocks generated_models new (snd (snd ?call))"
    if step: "?call = property_blocks properties required indent (lines', nested_blocks @ blocks, gm1)"
      and fresh: "fresh_blocks generated_models blocks gm1"
      and rest: "\<exists>new. fst (snd (property_blocks properties required indent
                        (lines', nested_blocks @ blocks, gm1))) = (nested_blocks @ blocks) @ new
          \<and> fresh_blocks gm1 new (snd (snd (property_blocks properties required indent
                        (lines', nested_blocks @ blocks, gm1))))"
    for blocks gm1
  proof -
    from rest obtain new where
      a: "fst (snd (property_blocks properties required indent
                        (lines', nested_blocks @ blocks, gm1))) = (nested_blocks @ blocks) @ new"
      and b: "fresh_blocks gm1 new (snd (snd (property_blocks properties required indent
                        (lines', nested_blocks @ blocks, gm1))))"
      by blast
    have "fresh_blocks generated_models (blocks @ new) (snd (snd ?call))"
      unfolding step using fresh b by (rule fresh_blocks_append)
    moreover have "fst (snd ?call) = nested_blocks @ (blocks @ new)"
      unfolding step using a by simp
    ultimately show ?thesis by blast
  qed
  consider (obj) "schema_type prop_schema = Some ''object'' \<or> schema_properties prop_schema \<noteq> []"
    | (arr) item_schema where
        "\<not> (schema_type prop_schema = Some ''object'' \<or> schema_properties prop_schema \<noteq> [])"
        "schema_items prop_schema = Some item_schema"
        "schema_type prop_schema = Some ''array''
           \<and> (schema_type item_schema = Some ''object'' \<or> schema_properties item_schema \<noteq> [])"
    | (plain) item_schema where
        "\<not> (schema_type prop_schema = Some ''object'' \<or> schema_properties prop_schema \<noteq> [])"
        "schema_items prop_schema = Some item_schema"
        "\<not> (schema_type prop_schema = Some ''array''
           \<and> (schema_type item_schema = Some ''object'' \<or> schema_properties item_schema \<noteq> []))"
    | (none) 
        "\<not> (schema_type prop_schema = Some ''object'' \<or> schema_properties prop_schema \<noteq> [])"
        "schema_items prop_schema = None"
    by (cases "schema_items prop_schema") auto
  then have "\<exists>new. fst (snd ?call) = nested_blocks @ new
      \<and> fresh_blocks generated_models new (snd (snd ?call))"
  proof cases
    case obj
    define r where "r = model_blocks prop_schema name (Some prop_name) indent generated_models"
    have step: "?call = property_blocks properties required indent
        (lines', nested_blocks @ fst r, snd r)"
      using obj by (simp add: Let_def r_def name_def lines'_def case_prod_beta)
    have fresh: "fresh_blocks generated_models (fst r) (snd r)"
      using "3.IH"(1) [OF refl refl refl refl refl obj refl] by (simp add: r_def name_def)
    have rest: "\<exists>new. fst (snd (property_blocks properties required indent
                        (lines', nested_blocks @ fst r, snd r))) = (nested_blocks @ fst r) @ new
          \<and> fresh_blocks (snd r) new (snd (snd (property_blocks properties required indent
                        (lines', nested_blocks @ fst r, snd r))))"
      using "3.IH"(2) [OF refl refl refl refl refl obj refl refl, of "fst r" "snd r"]
      by (simp add: r_def name_def lines'_def)
    show ?thesis by (rule nested [OF step fresh rest])
  next
    case arr
    define r where "r = model_blocks item_schema name (Some prop_name) indent generated_models"
    have step: "?call = property_blocks properties required indent
        (lines', nested_blocks @ fst r, snd r)"
      using arr by (simp add: Let_def r_def name_def lines'_def case_prod_beta)
    have fresh: "fresh_blocks generated_models (fst r) (snd r)"
      using "3.IH"(4) [OF refl refl refl refl refl arr refl] by (simp add: r_def name_def)
    have rest: "\<exists>new. fst (snd (property_blocks properties required indent
                        (lines', nested_blocks @ fst r, snd r))) = (nested_blocks @ fst r) @ new
          \<and> fresh_blocks (snd r) new (snd (snd (property_blocks properties required indent
                        (lines', nested_blocks @ fst r, snd r))))"
      using "3.IH"(5) [OF refl refl refl refl refl arr refl refl, of "fst r" "snd r"]
      by (simp add: r_def name_def lines'_def)
    show ?thesis by (rule nested [OF step fresh rest])
  next
    case plain
    have c: "(schema_type prop_schema = Some ''array''
           \<and> (schema_type item_schema = Some ''object'' \<or> schema_properties item_schema \<noteq> []))
        = False"
      using plain(3) by simp
    have step: "?call = property_blocks properties required indent
        (lines', nested_blocks @ [], generated_models)"
      using plain(1,2) by (simp add: Let_def lines'_def c)
    have rest: "\<exists>new. fst (snd (property_blocks properties required indent
                        (lines', nested_blocks @ [], generated_models))) = (nested_blocks @ []) @ new
          \<and> fresh_blocks generated_models new (snd (snd (property_blocks properties required indent
                        (lines', nested_blocks @ [], generated_models))))"
      using "3.IH"(6) [OF refl refl refl refl refl plain] by (simp add: lines'_def)
    show ?thesis by (rule nested [OF step fresh_blocks_Nil rest])
  next
    case none
    have step: "?call = property_blocks properties required indent
        (lines', nested_blocks @ [], generated_models)"
      using none by (simp add: Let_def lines'_def)
    have rest: "\<exists>new. fst (snd (property_blocks properties required indent
                        (lines', nested_blocks @ [], generated_models))) = (nested_blocks @ []) @ new
          \<and> fresh_blocks generated_models new (snd (snd (property_blocks properties required indent
                        (lines', nested_blocks @ [], generated_models))))"
      using "3.IH"(3) [OF refl refl refl refl refl none] by (simp add: lines'_def)
    show ?thesis by (rule nested [OF step fresh_blocks_Nil rest])
  qed
  then show ?case by simp
qed

lemma render_not_empty:
  assumes "list_all declares blocks" and "blocks \<noteq> []"
  shows "render blocks \<noteq> []"
proof -
  from assms(2) obtain b bs where b: "blocks = b # bs" by (cases blocks) auto
  with assms(1) have "snd b \<noteq> []" by (simp add: declares_not_empty)
  then show ?thesis unfolding render_def b by (simp add: join_not_empty)
qed

lemma render_append:
  "xs \<noteq> [] \<Longrightarrow> ys \<noteq> [] \<Longrightarrow> render (xs @ ys) = render xs @ [CHR 0x0A, CHR 0x0A] @ render ys"
  by (simp add: render_def join_append)

lemma same_code_Nil: "same_code [] []"
  by (simp add: same_code_def render_def)

lemma same_code_extend:
  assumes "same_code codes nested" and "list_all declares blocks"
  shows "same_code (if render blocks \<noteq> [] then codes @ [render blocks] else codes)
           (nested @ blocks)"
proof (cases "blocks = []")
  case True
  then show ?thesis using assms(1) by (simp add: render_def)
next
  case False
  then have ne: "render blocks \<noteq> []" using assms(2) by (simp add: render_not_empty)
  show ?thesis
  proof (cases "codes = []")
    case True
    then have "nested = []" using assms(1) by (simp add: same_code_def)
    then show ?thesis using True ne False by (simp add: same_code_def)
  next
    case codes: False
    then have "nested \<noteq> []" using assms(1) by (simp add: same_code_def)
    then show ?thesis
      using codes ne False assms(1)
      by (simp add: same_code_def join_snoc render_append)
  qed
qed

lemma same_code_owner:
  assumes "same_code codes nested"
  shows "(if codes \<noteq> [] then join [CHR 0x0A, CHR 0x0A] (codes @ [c]) else c)
     = render (nested @ [(n, c)])"
proof (cases "codes = []")
  case True
  then have "nested = []" using assms by (simp add: same_code_def)
  then show ?thesis using True by (simp add: render_def)
next
  case False
  then have "nested \<noteq> []" using assms by (simp add: same_code_def)
  then show ?thesis
    using False assms render_append [of nested "[(n, c)]"]
    by (simp add: same_code_def join_snoc) (simp add: render_def)
qed

lemma generate_empty_blocks:
  "generate_empty n indent gm = (render (fst (empty_blocks n indent gm)), snd (empty_blocks n indent gm))"
  by (simp add: generate_empty_def empty_blocks_def render_def)

lemma generate_pydantic_model_blocks:
  "generate_pydantic_model s n f indent gm =
     (render (fst (model_blocks s n f indent gm)), snd (model_blocks s n f indent gm))"
  and generate_properties_blocks:
  "same_code codes (fst (snd st)) \<Longrightarrow>
     fst (generate_properties ps req indent (fst st, codes, snd (snd st)))
       = fst (property_blocks ps req indent st)
     \<and> same_code (fst (snd (generate_properties ps req indent (fst st, codes, snd (snd st)))))
         (fst (snd (property_blocks ps req indent st)))
     \<and> snd (snd (generate_properties ps req indent (fst st, codes, snd (snd st))))
       = snd (snd (property_blocks ps req indent st))"
proof (induction s n f indent gm and ps req indent st arbitrary: and codes
    rule: model_blocks_property_blocks.induct)
  case (1 ty fmt properties items required nullable model_name field_name indent generated_models)
  let ?s = "Schema ty fmt properties items required nullable"
  let ?gm = "insert model_name generated_models"
  show ?case
  proof (cases "model_name \<in> generated_models")
    case True
    then show ?thesis by (simp add: render_def)
  next
    case new: False
    consider (leaf) "properties = [] \<and> ty \<noteq> Some ''array'' \<and> ty \<noteq> Some ''string''"
      | (str) "ty = Some ''string''"
      | (arr) "ty = Some ''array''"
      | (obj) "\<not> (properties = [] \<and> ty \<noteq> Some ''array'' \<and> ty \<noteq> Some ''string'')"
          "ty \<noteq> Some ''string''" "ty \<noteq> Some ''array''"
      by blast
    then show ?thesis
    proof cases
      case leaf
      then show ?thesis using new by (simp add: render_def)
    next
      case str
      then show ?thesis using new by (simp add: render_def)
    next
      case arr
      define item_name where "item_name =
        generate_model_name (if truthy field_name then field_name else Some ''items'') True"
      define r where "r = (case items of
                        None \<Rightarrow> empty_blocks item_name indent ?gm
                      | Some item_schema \<Rightarrow>
                          model_blocks item_schema item_name field_name indent ?gm)"
      define g where "g = (case items of
                        None \<Rightarrow> generate_empty item_name indent ?gm
                      | Some item_schema \<Rightarrow>
                          generate_pydantic_model item_schema item_name field_name indent ?gm)"
      define c where "c = join [CHR 0x0A]
              [''class '' @ model_name @ ''(BaseModelWithConfig):'',
               replicate indent (CHR '' '') @ ''items: List['' @ item_name @ ''] = Field(...)'']"
      have g: "g = (render (fst r), snd r)"
      proof (cases items)
        case None
        then show ?thesis by (simp add: g_def r_def generate_empty_blocks)
      next
        case (Some item_schema)
        then show ?thesis
          using "1.IH"(1) [OF new refl refl _ _ arr refl Some] arr
          by (simp add: g_def r_def item_name_def)
      qed
      have fresh: "list_all declares (fst r)"
      proof (cases items)
        case None
        then show ?thesis using empty_blocks_fresh [of ?gm item_name indent]
          by (simp add: r_def fresh_blocks_def)
      next
        case (Some item_schema)
        then show ?thesis
          using model_blocks_fresh [of ?gm item_schema item_name field_name indent]
          by (simp add: r_def fresh_blocks_def)
      qed
      have blocks: "model_blocks ?s model_name field_name indent generated_models =
          (fst r @ [(model_name, c)], snd r)"
        using new arr unfolding r_def item_name_def c_def
        by (simp add: Let_def case_prod_beta split del: if_split)
      have code: "generate_pydantic_model ?s model_name field_name indent generated_models =
          (if fst g \<noteq> [] then fst g @ [CHR 0x0A, CHR 0x0A] @ c else c, snd g)"
        using new arr unfolding g_def item_name_def c_def
        by (simp add: Let_def case_prod_beta split del: if_split cong del: if_weak_cong)
      have "(if render (fst r) \<noteq> [] then render (fst r) @ [CHR 0x0A, CHR 0x0A] @ c else c)
          = render (fst r @ [(model_name, c)])"
      proof (cases "fst r = []")
        case True
        then show ?thesis by (simp add: render_def)
      next
        case False
        then show ?thesis
          using render_not_empty [OF fresh False] render_append [of "fst r" "[(model_name, c)]"]
          by (simp add: render_def)
      qed
      then show ?thesis unfolding blocks code g by (simp split: if_splits)
    next
      case obj
      define first where "first = ''class '' @ model_name @ ''(BaseModelWithConfig):''"
      define r where "r = property_blocks properties required indent ([first], [], ?gm)"
      define g where "g = generate_properties properties required indent ([first], [], ?gm)"
      have rel: "fst g = fst r \<and> same_code (fst (snd g)) (fst (snd r)) \<and> snd (snd g) = snd (snd r)"
        using "1.IH"(2) [OF new refl refl obj, of "[]"] same_code_Nil
        by (simp add: g_def r_def first_def)
      have blocks: "model_blocks ?s model_name field_name indent generated_models =
          (fst (snd r) @ [(model_name, join [CHR 0x0A] (fst r))], snd (snd r))"
        using new obj unfolding r_def first_def by (simp add: Let_def case_prod_beta)
      have code: "generate_pydantic_model ?s model_name field_name indent generated_models =
          (if fst (snd g) \<noteq> []
           then join [CHR 0x0A, CHR 0x0A] (fst (snd g) @ [join [CHR 0x0A] (fst g)])
           else join [CHR 0x0A] (fst g), snd (snd g))"
        using new obj unfolding g_def first_def by (simp add: Let_def case_prod_beta)
      show ?thesis
        unfolding blocks code
        using rel same_code_owner [of "fst (snd g)" "fst (snd r)" "join [CHR 0x0A] (fst r)" model_name]
        by (simp split: if_splits)
    qed
  qed
next
  case (2 required indent state)
  then show ?case by simp
next
  case (3 prop_name prop_schema properties required indent lines nested_blocks generated_models)
  define lines' where "lines' = lines @
      [replicate indent (CHR '' '') @ prop_name @ '': ''
        @ get_pydantic_type prop_schema (Some prop_name) @ '' = Field(''
        @ (if prop_name \<in> set required \<or> schema_nullable prop_schema = Some False
           then ''...'' else ''None'') @ '')'']"
  define name where "name = generate_model_name (Some prop_name) True"
  from "3.prems" have rel: "same_code codes nested_blocks" by simp
  let ?p = "(prop_name, prop_schema) # properties"
  let ?blocks = "property_blocks ?p required indent (lines, nested_blocks, generated_models)"
  let ?codes = "generate_properties ?p required indent (lines, codes, generated_models)"
  have goal: "fst ?codes = fst ?blocks \<and> same_code (fst (snd ?codes)) (fst (snd ?blocks))
      \<and> snd (snd ?codes) = snd (snd ?blocks)"
    if b: "?blocks = property_blocks properties required indent (lines', nested', gm1)"
      and c: "?codes = generate_properties properties required indent (lines', codes', gm1)"
      and ih: "same_code codes' nested' \<Longrightarrow>
        fst (generate_properties properties required indent (lines', codes', gm1))
          = fst (property_blocks properties required indent (lines', nested', gm1))
        \<and> same_code (fst (snd (generate_properties properties required indent (lines', codes', gm1))))
            (fst (snd (property_blocks properties required indent (lines', nested', gm1))))
        \<and> snd (snd (generate_properties properties required indent (lines', codes', gm1)))
          = snd (snd (property_blocks properties required indent (lines', nested', gm1)))"
      and r: "same_code codes' nested'"
    for nested' codes' gm1
    unfolding b c using ih [OF r] .
  consider (obj) "schema_type prop_schema = Some ''object'' \<or> schema_properties prop_schema \<noteq> []"
    | (arr) item_schema where
        "\<not> (schema_type prop_schema = Some ''object'' \<or> schema_properties prop_schema \<noteq> [])"
        "schema_items prop_schema = Some item_schema"
        "schema_type prop_schema = Some ''array''
           \<and> (schema_type item_schema = Some ''object'' \<or> schema_properties item_schema \<noteq> [])"
    | (plain) item_schema where
        "\<not> (schema_type prop_schema = Some ''object'' \<or> schema_properties prop_schema \<noteq> [])"
        "schema_items prop_schema = Some item_schema"
        "\<not> (schema_type prop_schema = Some ''array''
           \<and> (schema_type item_schema = Some ''object'' \<or> schema_properties item_schema \<noteq> []))"
    | (none)
        "\<not> (schema_type prop_schema = Some ''object'' \<or> schema_properties prop_schema \<noteq> [])"
        "schema_items prop_schema = None"
    by (cases "schema_items prop_schema") auto
  then have "fst ?codes = fst ?blocks \<and> same_code (fst (snd ?codes)) (fst (snd ?blocks))
      \<and> snd (snd ?codes) = snd (snd ?blocks)"
  proof cases
    case obj
    define r where "r = model_blocks prop_schema name (Some prop_name) indent generated_models"
    have g: "generate_pydantic_model prop_schema name (Some prop_name) indent generated_models
        = (render (fst r), snd r)"
      using "3.IH"(1) [OF refl refl refl refl refl obj refl] by (simp add: r_def name_def)
    have b: "?blocks = property_blocks properties required indent
        (lines', nested_blocks @ fst r, snd r)"
      using obj by (simp add: Let_def r_def name_def lines'_def case_prod_beta)
    have c: "?codes = generate_properties properties required indent
        (lines', if render (fst r) \<noteq> [] then codes @ [render (fst r)] else codes, snd r)"
      using obj g by (simp add: Let_def name_def lines'_def case_prod_beta)
    have fresh: "list_all declares (fst r)"
      using model_blocks_fresh [of generated_models prop_schema name "Some prop_name" indent]
      by (simp add: r_def fresh_blocks_def)
    show ?thesis
      using "3.IH"(2) [OF refl refl refl refl refl obj refl refl, of "fst r" "snd r"]
      by (intro goal [OF b c _ same_code_extend [OF rel fresh]])
        (simp add: r_def name_def lines'_def)
  next
    case arr
    define r where "r = model_blocks item_schema name (Some prop_name) indent generated_models"
    have g: "generate_pydantic_model item_schema name (Some prop_name) indent generated_models
        = (render (fst r), snd r)"
      using "3.IH"(4) [OF refl refl refl refl refl arr refl] by (simp add: r_def name_def)
    have b: "?blocks = property_blocks properties required indent
        (lines', nested_blocks @ fst r, snd r)"
      using arr by (simp add: Let_def r_def name_def lines'_def case_prod_beta)
    have c: "?codes = generate_properties properties required indent
        (lines', if render (fst r) \<noteq> [] then codes @ [render (fst r)] else codes, snd r)"
      using arr g by (simp add: Let_def name_def lines'_def case_prod_beta)
    have fresh: "list_all declares (fst r)"
      using model_blocks_fresh [of generated_models item_schema name "Some prop_name" indent]
      by (simp add: r_def fresh_blocks_def)
    show ?thesis
      using "3.IH"(5) [OF refl refl refl refl refl arr refl refl, of "fst r" "snd r"]
      by (intro goal [OF b c _ same_code_extend [OF rel fresh]])
        (simp add: r_def name_def lines'_def)
  next
    case plain
    have k: "(schema_type prop_schema = Some ''array''
           \<and> (schema_type item_schema = Some ''object'' \<or> schema_properties item_schema \<noteq> []))
        = False"
      using plain(3) by simp
    have b: "?blocks = property_blocks properties required indent
        (lines', nested_blocks, generated_models)"
      using plain(1,2) by (simp add: Let_def lines'_def k)
    have c: "?codes = generate_properties properties required indent
        (lines', codes, generated_models)"
      using plain(1,2) by (simp add: Let_def lines'_def k)
    show ?thesis
      using "3.IH"(6) [OF refl refl refl refl refl plain]
      by (intro goal [OF b c _ rel]) (simp add: lines'_def)
  next
    case none
    have b: "?blocks = property_blocks properties required indent
        (lines', nested_blocks, generated_models)"
      using none by (simp add: Let_def lines'_def)
    have c: "?codes = generate_properties properties required indent
        (lines', codes, generated_models)"
      using none by (simp add: Let_def lines'_def)
    show ?thesis
      using "3.IH"(3) [OF refl refl refl refl refl none]
      by (intro goal [OF b c _ rel]) (simp add: lines'_def)
  qed
  then show ?case by simp
qed

section \<open>The claims\<close>

subsection \<open>C1: the field inferred from a matching path parameter\<close>

text \<open>
  C1 (amended). Take a service, a POST of it that has a response keyed 200 or 201 and whose
  success response is an object schema with a property named like a path parameter of a
  non-POST operation of the service, no property having the empty name, and no later POST
  of the service qualifying as a source. Then \<open>_predict_id_usage\<close> returns a mapping for
  the service, with that POST as its source; its \<open>id_field\<close> is the first path parameter,
  in the iteration order of the path-parameter set, that is a property name; and every
  GET, PUT, DELETE or PATCH operation of the service with a path parameter of that name has
  its path in \<open>used_in\<close>.
\<close>

theorem inferred_field_exact_match:
  assumes ord: "set_order ord"
    and grp: "map_of (get_endpoint_groups api) service = Some endpoints"
    and pos: "endpoints = before @ e # after"
    and post: "ep_method e = ''POST''"
    and keyed: "''200'' \<in> set (map fst (ep_responses e)) \<or> ''201'' \<in> set (map fst (ep_responses e))"
    and later: "\<forall>e' \<in> set after. \<not> qualifies api ord service e'"
    and succ: "success_response (ep_responses e) = Some r"
    and sch: "resp_schema r = Some sc"
    and obj: "schema_type sc = Some ''object''"
    and hasp: "p \<in> set (map fst (schema_properties sc))"
    and named: "[] \<notin> set (map fst (schema_properties sc))"
    and dep: "d \<in> set endpoints" "ep_method d \<noteq> ''POST''" "p \<in> set (ep_path_parameters d)"
  shows "\<exists>mp path_params.
           id_mapping_for api ord service = Inr (Some mp)
         \<and> im_source mp = ep_path e
         \<and> get_path_parameters api ord service = Inr path_params
         \<and> find (\<lambda>x. x \<in> set (map fst (schema_properties sc))) path_params = Some (im_id_field mp)
         \<and> (\<forall>g \<in> set endpoints. \<forall>q \<in> set (ep_parameters g).
               ep_method g \<in> set [''GET'', ''PUT'', ''DELETE'', ''PATCH'']
               \<and> param_type q = ''path'' \<and> param_name q = im_id_field mp
               \<longrightarrow> ep_path g \<in> set (im_used_in mp))"
proof -
  define xs where "xs = concat (map (\<lambda>e. if ep_method e \<noteq> ''POST'' \<and> ep_path_parameters e \<noteq> []
                                       then ep_path_parameters e else []) endpoints)"
  have pps: "get_path_parameters api ord service = Inr (ord xs)"
    by (simp add: get_path_parameters_def grp xs_def)
  from dep have "p \<in> set xs" unfolding xs_def by auto
  then have "p \<in> set (ord xs)" using ord by (simp add: set_order_def)
  with hasp have "find (\<lambda>x. x \<in> set (map fst (schema_properties sc))) (ord xs) \<noteq> None"
    by (auto simp: find_None_iff)
  then obtain f where f: "find (\<lambda>x. x \<in> set (map fst (schema_properties sc))) (ord xs) = Some f"
    by blast
  then have f_in: "f \<in> set (map fst (schema_properties sc))"
    by (auto simp: find_Some_iff)
  with named have f_ne: "f \<noteq> []" by metis
  have sc_ne: "sc \<noteq> empty_schema" "schema_properties sc \<noteq> []"
    using obj hasp by (auto simp: empty_schema_def)
  have frif: "find_resource_id_field api ord service (ep_responses e) = Inr (Some f)"
    using f sc_ne obj by (simp add: find_resource_id_field_def pps succ sch)
  then have inf: "inferred_field api ord service e = f"
    by (simp add: inferred_field_def)
  have q: "qualifies api ord service e"
    using post keyed inf f_ne by (simp add: qualifies_def)
  have "filter (qualifies api ord service) after = []"
    using later by (simp add: filter_empty_conv)
  then have qs: "filter (qualifies api ord service) endpoints
      = filter (qualifies api ord service) before @ [e]"
    using q by (simp add: pos)
  define mp where "mp = (source_mapping service e f)\<lparr> im_used_in := used_paths f endpoints \<rparr>"
  have m: "id_mapping_for api ord service = Inr (Some mp)"
    using id_mapping_for_service [OF grp, of ord] by (simp add: qs Let_def inf mp_def)
  have src: "im_source mp = ep_path e" and fld: "im_id_field mp = f"
    and used: "im_used_in mp = used_paths f endpoints"
    by (simp_all add: mp_def source_mapping_def)
  have "\<forall>g \<in> set endpoints. \<forall>q \<in> set (ep_parameters g).
               ep_method g \<in> set [''GET'', ''PUT'', ''DELETE'', ''PATCH'']
               \<and> param_type q = ''path'' \<and> param_name q = im_id_field mp
               \<longrightarrow> ep_path g \<in> set (im_used_in mp)"
    unfolding used fld using used_paths_member [of _ endpoints _ f]
    by (simp add: uses_id_def)
  with m src pps f fld show ?thesis by blast
qed

text \<open>
  The theorem at the first example: the field is \<open>itemId\<close>, and the path of the GET is in
  \<open>used_in\<close>.
\<close>

theorem inferred_field_exact_match_witness:
  "set_order remdups
   \<and> map_of (get_endpoint_groups c1_api) ''items'' = Some ([] @ c1_post # [c1_get])
   \<and> ep_method c1_post = ''POST''
   \<and> ''201'' \<in> set (map fst (ep_responses c1_post))
   \<and> \<not> qualifies c1_api remdups ''items'' c1_get
   \<and> success_response (ep_responses c1_post) = Some c1_response
   \<and> resp_schema c1_response = Some c1_schema
   \<and> schema_type c1_schema = Some ''object''
   \<and> ''itemId'' \<in> set (map fst (schema_properties c1_schema))
   \<and> [] \<notin> set (map fst (schema_properties c1_schema))
   \<and> ep_method c1_get \<noteq> ''POST'' \<and> ''itemId'' \<in> set (ep_path_parameters c1_get)
   \<and> (\<exists>mp. id_mapping_for c1_api remdups ''items'' = Inr (Some mp)
          \<and> im_source mp = ''POST /items''
          \<and> im_id_field mp = ''itemId''
          \<and> ''GET /items/{itemId}'' \<in> set (im_used_in mp))"
proof -
  have ord: "set_order remdups" by (simp add: set_order_def)
  have grp: "map_of (get_endpoint_groups c1_api) ''items'' = Some ([] @ c1_post # [c1_get])"
    by code_simp
  have post: "ep_method c1_post = ''POST''" by (simp add: c1_post_def)
  have keyed: "''200'' \<in> set (map fst (ep_responses c1_post))
      \<or> ''201'' \<in> set (map fst (ep_responses c1_post))"
    by (simp add: c1_post_def)
  have later: "\<forall>e' \<in> set [c1_get]. \<not> qualifies c1_api remdups ''items'' e'"
    by (simp add: qualifies_def c1_get_def)
  have succ: "success_response (ep_responses c1_post) = Some c1_response" by code_simp
  have sch: "resp_schema c1_response = Some c1_schema" by (simp add: c1_response_def)
  have obj: "schema_type c1_schema = Some ''object''" by (simp add: c1_schema_def)
  have hasp: "''itemId'' \<in> set (map fst (schema_properties c1_schema))"
    by (simp add: c1_schema_def)
  have named: "[] \<notin> set (map fst (schema_properties c1_schema))"
    by (simp add: c1_schema_def)
  have dep: "c1_get \<in> set ([] @ c1_post # [c1_get])" "ep_method c1_get \<noteq> ''POST''"
    "''itemId'' \<in> set (ep_path_parameters c1_get)"
    by (simp_all add: c1_get_def)
  from inferred_field_exact_match [OF ord grp refl post keyed later succ sch obj hasp named dep]
  obtain mp path_params where
    m: "id_mapping_for c1_api remdups ''items'' = Inr (Some mp)"
    and src: "im_source mp = ep_path c1_post"
    and pps: "get_path_parameters c1_api remdups ''items'' = Inr path_params"
    and fld: "find (\<lambda>x. x \<in> set (map fst (schema_properties c1_schema))) path_params
        = Some (im_id_field mp)"
    and used: "\<forall>g \<in> set ([] @ c1_post # [c1_get]). \<forall>q \<in> set (ep_parameters g).
               ep_method g \<in> set [''GET'', ''PUT'', ''DELETE'', ''PATCH'']
               \<and> param_type q = ''path'' \<and> param_name q = im_id_field mp
               \<longrightarrow> ep_path g \<in> set (im_used_in mp)"
    by blast
  have "get_path_parameters c1_api remdups ''items'' = Inr [''itemId'']" by code_simp
  with pps have "path_params = [''itemId'']" by simp
  with fld have f: "im_id_field mp = ''itemId''" by (simp add: c1_schema_def)
  from used f have u: "''GET /items/{itemId}'' \<in> set (im_used_in mp)"
    by (simp add: c1_get_def)
  from src have s: "im_source mp = ''POST /items''" by (simp add: c1_post_def)
  from m s f u have "\<exists>mp. id_mapping_for c1_api remdups ''items'' = Inr (Some mp)
          \<and> im_source mp = ''POST /items''
          \<and> im_id_field mp = ''itemId''
          \<and> ''GET /items/{itemId}'' \<in> set (im_used_in mp)" by blast
  with ord grp post keyed later succ sch obj hasp named dep show ?thesis
    by (simp add: c1_post_def)
qed

text \<open>
  C1 as stated fails. The creation of this catalog answers 202: its success response is
  an object schema with the property \<open>itemId\<close>, the path parameter of the service's GET,
  and yet \<open>_predict_id_usage\<close> returns no mapping for the service, since the first loop
  looks for the response keys 200 and 201 only.
\<close>

theorem accepted_creation_has_no_mapping:
  "map_of (get_endpoint_groups c1_accepted_api) ''items'' = Some [c1_accepted_post, c1_get]
   \<and> ep_method c1_accepted_post = ''POST''
   \<and> success_response (ep_responses c1_accepted_post) = Some c1_accepted
   \<and> resp_schema c1_accepted = Some c1_schema
   \<and> schema_type c1_schema = Some ''object''
   \<and> ''itemId'' \<in> set (map fst (schema_properties c1_schema))
   \<and> ep_method c1_get = ''GET''
   \<and> ''itemId'' \<in> set (ep_path_parameters c1_get)
   \<and> id_mapping_for c1_accepted_api remdups ''items'' = Inr None"
  by code_simp

subsection \<open>C2: the field of a string response\<close>

text \<open>
  C2. For every service of the catalog and every responses map whose success response (the
  first entry whose status code starts with 2) has a schema of type string:
  \<open>_find_resource_id_field\<close> returns the service key followed by \<open>Id\<close> when the format is
  uuid and the content type is text/plain, a name no field of the response body has; and it
  returns the sentinel \<open>response\<close> for every other string schema.
\<close>

theorem find_resource_id_field_string:
  assumes "map_of (get_endpoint_groups api) service = Some endpoints"
    and "success_response responses = Some r"
    and "resp_schema r = Some sc"
    and "schema_type sc = Some ''string''"
  shows "find_resource_id_field api ord service responses =
     Inr (Some (if resp_content_type r = Some ''text/plain'' \<and> schema_format sc = Some ''uuid''
                then service @ ''Id'' else ''response''))"
proof -
  have "sc \<noteq> empty_schema" using assms(4) by (auto simp: empty_schema_def)
  then show ?thesis
    using assms group_key_lower [OF assms(1)]
    by (simp add: find_resource_id_field_def get_path_parameters_def)
qed

text \<open>
  The theorem at the two creations of the example: \<open>tokensId\<close> for the UUID sent as
  text/plain, \<open>response\<close> for the plain string.
\<close>

theorem find_resource_id_field_string_witness:
  "find_resource_id_field c2_api remdups ''tokens'' c2_token_responses = Inr (Some ''tokensId'')
   \<and> find_resource_id_field c2_api remdups ''tokens'' c2_note_responses = Inr (Some ''response'')"
proof -
  have "map_of (get_endpoint_groups c2_api) ''tokens'' \<noteq> None"
    by code_simp
  then obtain endpoints where g: "map_of (get_endpoint_groups c2_api) ''tokens'' = Some endpoints"
    by blast
  have t: "success_response c2_token_responses =
      Some \<lparr> resp_status_code = IntStatus 201,
             resp_schema = Some (Schema (Some ''string'') (Some ''uuid'') [] None [] None),
             resp_content_type = Some ''text/plain'' \<rparr>"
    by code_simp
  have n: "success_response c2_note_responses =
      Some \<lparr> resp_status_code = IntStatus 200,
             resp_schema = Some (Schema (Some ''string'') None [] None [] None),
             resp_content_type = Some ''application/json'' \<rparr>"
    by code_simp
  show ?thesis
    using find_resource_id_field_string [OF g t, of _ remdups]
      find_resource_id_field_string [OF g n, of _ remdups]
    by simp
qed

subsection \<open>C3: the last qualifying POST wins\<close>

text \<open>
  C3. When a service has POST operations that qualify as identifier sources (a response
  keyed 200 or 201, and a field inferred by \<open>_find_resource_id_field\<close>), the result of
  \<open>_predict_id_usage\<close> holds one mapping for the service, the one of the last qualifying
  POST in iteration order: its source path, its inferred field and its test name. Every
  later qualifying POST has overwritten the mapping of the earlier ones.
\<close>

theorem predict_id_usage_last_post_wins:
  assumes "map_of (get_endpoint_groups api) service = Some endpoints"
    and "qs = filter (qualifies api ord service) endpoints"
    and "qs \<noteq> []"
  shows "\<exists>mp. id_mapping_for api ord service = Inr (Some mp)
           \<and> im_source mp = ep_path (last qs)
           \<and> find_resource_id_field api ord service (ep_responses (last qs))
                = Inr (Some (im_id_field mp))
           \<and> im_source_test_name mp =
                ''test_'' @ lower (ep_method (last qs)) @ ''_'' @ service @ ''_''
                  @ test_name_suffix (ep_endpoint_name (last qs)) service"
proof -
  have "\<forall>e \<in> set qs. qualifies api ord service e" using assms(2) by simp
  moreover have "last qs \<in> set qs" using assms(3) by (rule last_in_set)
  ultimately have "qualifies api ord service (last qs)" by blast
  then have "inferred_field api ord service (last qs) \<noteq> []" by (simp add: qualifies_def)
  then have "find_resource_id_field api ord service (ep_responses (last qs))
      = Inr (Some (inferred_field api ord service (last qs)))"
    by (auto simp: inferred_field_def split: sum.splits option.splits)
  then show ?thesis
    using id_mapping_for_service [OF assms(1), of ord] assms(2,3)
    by (simp add: Let_def source_mapping_def)
qed

text \<open>
  The theorem at the service with two creations: the mapping is that of the second.
\<close>

theorem predict_id_usage_last_post_wins_witness:
  "map_of (get_endpoint_groups c3_api) ''items'' = Some [c3_post, c3_bulk]
   \<and> filter (qualifies c3_api remdups ''items'') [c3_post, c3_bulk] = [c3_post, c3_bulk]
   \<and> (\<exists>mp. id_mapping_for c3_api remdups ''items'' = Inr (Some mp)
           \<and> im_source mp = ''POST /items/bulk''
           \<and> im_id_field mp = ''response''
           \<and> im_source_test_name mp = ''test_post_items_bulk_default'')"
proof -
  have g: "map_of (get_endpoint_groups c3_api) ''items'' = Some [c3_post, c3_bulk]"
    by code_simp
  have q: "[c3_post, c3_bulk] = filter (qualifies c3_api remdups ''items'') [c3_post, c3_bulk]"
    by code_simp
  have ne: "[c3_post, c3_bulk] \<noteq> []" by simp
  have f: "find_resource_id_field c3_api remdups ''items'' (ep_responses c3_bulk)
      = Inr (Some ''response'')"
    by code_simp
  have p: "ep_path c3_bulk = ''POST /items/bulk''" by code_simp
  have n: "''test_'' @ lower (ep_method c3_bulk) @ ''_'' @ ''items'' @ ''_''
                  @ test_name_suffix (ep_endpoint_name c3_bulk) ''items''
      = ''test_post_items_bulk_default''" by code_simp
  from predict_id_usage_last_post_wins [OF g q ne] f p n g q
  show ?thesis by auto
qed

subsection \<open>C4: the writers of the shared identifier\<close>

text \<open>
  C4 (amended). The body emitted for an endpoint with a success response assigns the
  class-level \<open>resource_id\<close> exactly when the status code of that response is the
  integer 201 and the service has an identifier mapping, whether or not the endpoint is
  the source of the mapping.
\<close>

theorem capture_condition:
  assumes "success_response (ep_responses e) = Some r"
  shows "writes_resource_id (test_method ms service title e)
     \<longleftrightarrow> resp_status_code r = IntStatus 201 \<and> service \<in> dom ms"
  using assms
  by (simp add: writes_resource_id_def test_method_def Let_def sq_def chosen_field_words_def
      list_ex_if cong del: if_weak_cong split del: if_split)
    simp

text \<open>
  The theorem at the POST and at the GET of the first example: the POST, which answers
  201, assigns \<open>resource_id\<close>, and the GET, which answers 200, does not.
\<close>

theorem capture_condition_witness:
  "success_response (ep_responses c1_post) = Some c1_response
   \<and> writes_resource_id (test_method [''items'' \<mapsto> c4_mapping] ''items'' ''common'' c1_post)
   \<and> success_response (ep_responses c1_get) \<noteq> None
   \<and> \<not> writes_resource_id (test_method [''items'' \<mapsto> c4_mapping] ''items'' ''common'' c1_get)"
proof -
  have p: "success_response (ep_responses c1_post) = Some c1_response" by code_simp
  have g: "success_response (ep_responses c1_get) =
      Some \<lparr> resp_status_code = IntStatus 200,
          resp_schema = Some (Schema (Some ''object'') None [] None [] None),
          resp_content_type = None \<rparr>" by code_simp
  show ?thesis
    using capture_condition [OF p, of "[''items'' \<mapsto> c4_mapping]" "''items''" "''common''"]
      capture_condition [OF g, of "[''items'' \<mapsto> c4_mapping]" "''items''" "''common''"] p g
    by (simp add: c1_response_def)
qed

text \<open>
  C4 as stated fails. The service's mapping has the POST as its source, and the PUT of the
  service also answers 201: the test emitted for the PUT, which is not the source test,
  assigns \<open>resource_id\<close> too, and the test class has two assignments.
\<close>

theorem second_writer_of_resource_id:
  "map_of (get_endpoint_groups c4_api) ''items'' = Some [c1_post, c4_put]
   \<and> id_mapping_for c4_api remdups ''items'' = Inr (Some c4_mapping)
   \<and> im_source c4_mapping = ep_path c1_post
   \<and> im_source_test_name c4_mapping = test_name ''items'' c1_post
   \<and> test_name ''items'' c4_put \<noteq> im_source_test_name c4_mapping
   \<and> writes_resource_id (test_method [''items'' \<mapsto> c4_mapping] ''items'' ''common'' c4_put)
   \<and> length (filter (prefix ''        self.__class__.resource_id = '')
         (test_content [''items'' \<mapsto> c4_mapping] ''items'' [c1_post, c4_put])) = 2"
  by code_simp

subsection \<open>C5: one test method per endpoint, in order\<close>

text \<open>
  C5 (amended). For every service the content of its test file has one test class, and
  one test method for each endpoint of the service that has a success response, none for
  an endpoint without one. The methods stand in the order of the endpoints sorted by
  method rank (POST, PUT, GET, PATCH, DELETE, any other method last) and then by path:
  the sorted list is ordered by that key, holds the same endpoints, and keeps endpoints
  of equal key in their catalog order.
\<close>

theorem test_methods_in_order:
  "filter (prefix ''    async def '') (test_content ms service endpoints) =
     map (\<lambda>e. ''    async def '' @ test_name service e @ ''(self, domain, api_client, models):'')
       (filter (\<lambda>e. success_response (ep_responses e) \<noteq> None)
          (sort_key test_order endpoints))
   \<and> sorted (map test_order (sort_key test_order endpoints))
   \<and> mset (sort_key test_order endpoints) = mset endpoints
   \<and> (\<forall>k. filter (\<lambda>e. test_order e = k) (sort_key test_order endpoints)
            = filter (\<lambda>e. test_order e = k) endpoints)
   \<and> filter (prefix ''class '') (test_content ms service endpoints)
       = [''class Test'' @ capitalize service @ ''Default:'']"
proof -
  have a: "filter (prefix ''    async def '') (test_content ms service endpoints) =
     map (\<lambda>e. ''    async def '' @ test_name service e @ ''(self, domain, api_client, models):'')
       (filter (\<lambda>e. success_response (ep_responses e) \<noteq> None)
          (sort_key test_order endpoints))"
    by (simp add: test_content_def Let_def sq_def test_methods_def_lines)
  have b: "filter (prefix ''class '') (test_content ms service endpoints)
       = [''class Test'' @ capitalize service @ ''Default:'']"
    by (simp add: test_content_def Let_def sq_def test_methods_class_lines)
  have c: "sorted (map test_order (sort_key test_order endpoints))"
    by (rule sorted_sort_key)
  have d: "mset (sort_key test_order endpoints) = mset endpoints"
    by simp
  have e: "\<forall>k. filter (\<lambda>e. test_order e = k) (sort_key test_order endpoints)
            = filter (\<lambda>e. test_order e = k) endpoints"
    by (simp add: sort_key_stable)
  from a b c d e show ?thesis by blast
qed

text \<open>
  The theorem at the operations GET, POST, DELETE: the methods come out as POST, GET,
  DELETE.
\<close>

theorem test_methods_in_order_witness:
  "filter (prefix ''    async def '') (test_content Map.empty ''items'' c5_ordered) =
     [''    async def test_post_items_default(self, domain, api_client, models):'',
      ''    async def test_get_items_itemId_id_default(self, domain, api_client, models):'',
      ''    async def test_delete_items_thingId_id_default(self, domain, api_client, models):'']"
proof -
  have "map (\<lambda>e. ''    async def '' @ test_name ''items'' e
                @ ''(self, domain, api_client, models):'')
       (filter (\<lambda>e. success_response (ep_responses e) \<noteq> None)
          (sort_key test_order c5_ordered)) =
     [''    async def test_post_items_default(self, domain, api_client, models):'',
      ''    async def test_get_items_itemId_id_default(self, domain, api_client, models):'',
      ''    async def test_delete_items_thingId_id_default(self, domain, api_client, models):'']"
    by code_simp
  then show ?thesis
    using test_methods_in_order [of Map.empty "''items''" c5_ordered] by simp
qed

text \<open>
  C5 as stated fails. The service has two endpoints, and the GET declares a 404 response
  only: the loop skips it, and the test class has one test method, the DELETE's.
\<close>

theorem endpoint_without_success_response_has_no_test:
  "map_of (get_endpoint_groups c5_api) ''things'' = Some [c5_get, c5_delete]
   \<and> length [c5_get, c5_delete] = 2
   \<and> filter (prefix ''    async def '') (test_content Map.empty ''things'' [c5_get, c5_delete]) =
       [''    async def test_delete_things_thingId_id_default(self, domain, api_client, models):'']"
  by code_simp

subsection \<open>C6: paths under users/profile\<close>

text \<open>
  The path-declaration generator looks at the first two segments of a path: a path that
  starts with a slash and whose first two segments are \<open>users\<close> and \<open>profile\<close> is
  declared in the class \<open>UsersProfile\<close>, and the name of its endpoint is made of the
  segments after \<open>profile\<close>, joined by underscores and sanitised, \<open>root\<close> when nothing
  is left.
\<close>

lemma path_entry_users_profile:
  assumes "prefix ''/'' path"
    and "split (CHR ''/'') (strip (CHR ''/'') path) = ''users'' # ''profile'' # rest"
  shows "\<exists>clean_path. path_entry path =
           Some (''UsersProfile'',
                 (let name = replace ''.'' ''_'' (replace ''-'' ''_''
                               (replace ''}'' [] (replace ''{'' [] (join ''_'' rest))))
                  in if rest = [] \<or> name = [] then ''root'' else name),
                 clean_path)"
  using assms
  by (simp add: path_entry_def Let_def replace_single_delete replace_single_char)

text \<open>
  C6. An endpoint whose path begins with \<open>users/profile\<close> is to get the service key
  \<open>profile\<close> (the class \<open>UsersProfile\<close> in the path declarations), the segments after
  \<open>profile\<close> forming the name of the endpoint, in the path-declaration generator and in
  the test-group classifier alike. The test-group classifier does not do so: it compares
  the first segment alone with \<open>users_profile\<close>, which the first segment of a path under
  \<open>users/profile\<close> never is. For the catalog key \<open>GET /users/profile/settings\<close> it gives
  the service key \<open>users\<close>, and the endpoint is grouped under \<open>users\<close>, where the
  path-declaration generator gives \<open>UsersProfile\<close> with the endpoint name \<open>settings\<close>.
  The special case of the classifier is reached only by a first segment that is itself
  \<open>users_profile\<close>.
\<close>

theorem users_profile_service_key:
  "get_service_and_title c6_api ''GET /users/profile/settings'' = (''users'', ''common'')
   \<and> get_endpoint_groups c6_api = [(''users'', [c6_settings])]
   \<and> ep_endpoint_name c6_settings = ''settings''
   \<and> path_entry ''/users/profile/settings''
       = Some (''UsersProfile'', ''settings'', ''/users/profile/settings'')
   \<and> get_service_and_title c6_api ''GET /users_profile/settings'' = (''profile'', ''common'')"
  by code_simp

subsection \<open>C7: a catalog that cannot be loaded\<close>

text \<open>
  C7 (amended). When the catalog cannot be loaded, the constructors of TestsContainer and
  of ValidationsContainer raise and produce nothing. The constructor of EndpointsContainer
  does not raise: it goes on with the empty catalog and produces paths.py and configs.py,
  the text of paths.py being the one generated from the empty catalog.
\<close>

theorem load_failure_by_container:
  assumes "set_order ord"
  shows "tests_container ord (Inl err) = Inl err
   \<and> validations_container (Inl err) = Inl LoadError
   \<and> endpoints_container ord (Inl err) =
       Inr [\<lparr> ef_name = ''paths.py'', ef_content = Text empty_paths_content \<rparr>,
            \<lparr> ef_name = ''configs.py'', ef_content = ConfigContent [] \<rparr>]"
  using assms
  by (simp add: tests_container_def tests_load_api_reference_def validations_container_def
      validations_load_api_reference_def endpoints_container_def
      endpoints_load_api_reference_def generate_endpoint_files_def
      generate_paths_content_empty)

text \<open>
  The theorem with the sets listed in the order of insertion.
\<close>

theorem load_failure_by_container_witness:
  "set_order remdups
   \<and> tests_container remdups (Inl LoadError) = Inl LoadError
   \<and> validations_container (Inl LoadError) = Inl LoadError
   \<and> endpoints_container remdups (Inl LoadError) =
       Inr [\<lparr> ef_name = ''paths.py'', ef_content = Text empty_paths_content \<rparr>,
            \<lparr> ef_name = ''configs.py'', ef_content = ConfigContent [] \<rparr>]"
proof -
  have ord: "set_order remdups" by (simp add: set_order_def)
  from load_failure_by_container [OF ord, of LoadError] ord
  show ?thesis by simp
qed

text \<open>
  C7 as stated fails. The load of the catalog fails, and EndpointsContainer returns its two
  files.
\<close>

theorem endpoints_container_continues:
  "endpoints_container remdups (Inl LoadError) =
       Inr [\<lparr> ef_name = ''paths.py'', ef_content = Text empty_paths_content \<rparr>,
            \<lparr> ef_name = ''configs.py'', ef_content = ConfigContent [] \<rparr>]"
  by code_simp

subsection \<open>C8: one declaration for each model name\<close>

text \<open>
  C8 (amended). The code that one run of the validation-model generator returns is the
  sequence of the declarations it emits, a blank line between two; every one of them
  declares the model it is named after, no two of them have the same model name, none has
  a name that was in the generated-model-name set before, and the set afterwards is the
  set before with their names added. A model whose name is already in the set emits
  nothing, whatever its schema. So sub-objects collapse into one declaration when their
  field names give the same model name, not when they have the same structure.
\<close>

theorem one_declaration_per_model_name:
  "generate_pydantic_model s n f indent gm =
     (render (fst (model_blocks s n f indent gm)), snd (model_blocks s n f indent gm))
   \<and> list_all declares (fst (model_blocks s n f indent gm))
   \<and> distinct (map fst (fst (model_blocks s n f indent gm)))
   \<and> set (map fst (fst (model_blocks s n f indent gm))) \<inter> gm = {}
   \<and> snd (model_blocks s n f indent gm) = gm \<union> set (map fst (fst (model_blocks s n f indent gm)))
   \<and> (n \<in> gm \<longrightarrow> generate_pydantic_model s n f indent gm = ([], gm))"
proof -
  have "n \<in> gm \<longrightarrow> generate_pydantic_model s n f indent gm = ([], gm)"
    by (cases s) simp
  then show ?thesis
    using generate_pydantic_model_blocks [of s n f indent gm]
      model_blocks_fresh [of gm s n f indent]
    by (simp add: fresh_blocks_def)
qed

text \<open>
  The theorem at the schema with the field name \<open>x\<close> at two places: the model of \<open>x\<close> is
  declared once, and a second request for it emits nothing.
\<close>

theorem one_declaration_per_model_name_witness:
  "map fst (fst (model_blocks c8_same_name ''ResponseSuccessBody'' None 4 {})) =
     [''ResponseSuccessBodyX'', ''ResponseSuccessBodyA'', ''ResponseSuccessBodyB'',
      ''ResponseSuccessBody'']
   \<and> fst (generate_pydantic_model c8_same_name ''ResponseSuccessBody'' None 4 {}) =
       join [CHR 0x0A]
         [''class ResponseSuccessBodyX(BaseModelWithConfig):'',
          ''    v: str = Field(None)'',
          [],
          ''class ResponseSuccessBodyA(BaseModelWithConfig):'',
          ''    x: ResponseSuccessBodyX = Field(None)'',
          [],
          ''class ResponseSuccessBodyB(BaseModelWithConfig):'',
          ''    x: ResponseSuccessBodyX = Field(None)'',
          [],
          ''class ResponseSuccessBody(BaseModelWithConfig):'',
          ''    a: ResponseSuccessBodyA = Field(None)'',
          ''    b: ResponseSuccessBodyB = Field(None)'']
   \<and> ''ResponseSuccessBodyX'' \<in> {''ResponseSuccessBodyX''}
   \<and> generate_pydantic_model c8_inner ''ResponseSuccessBodyX'' (Some ''x'') 4
         {''ResponseSuccessBodyX''} = ([], {''ResponseSuccessBodyX''})"
proof -
  have names: "map fst (fst (model_blocks c8_same_name ''ResponseSuccessBody'' None 4 {})) =
     [''ResponseSuccessBodyX'', ''ResponseSuccessBodyA'', ''ResponseSuccessBodyB'',
      ''ResponseSuccessBody'']"
    by code_simp
  have code: "render (fst (model_blocks c8_same_name ''ResponseSuccessBody'' None 4 {})) =
       join [CHR 0x0A]
         [''class ResponseSuccessBodyX(BaseModelWithConfig):'',
          ''    v: str = Field(None)'',
          [],
          ''class ResponseSuccessBodyA(BaseModelWithConfig):'',
          ''    x: ResponseSuccessBodyX = Field(None)'',
          [],
          ''class ResponseSuccessBodyB(BaseModelWithConfig):'',
          ''    x: ResponseSuccessBodyX = Field(None)'',
          [],
          ''class ResponseSuccessBody(BaseModelWithConfig):'',
          ''    a: ResponseSuccessBodyA = Field(None)'',
          ''    b: ResponseSuccessBodyB = Field(None)'']"
    by code_simp
  have m: "''ResponseSuccessBodyX'' \<in> {''ResponseSuccessBodyX''}" by simp
  from one_declaration_per_model_name
    [of c8_same_name "''ResponseSuccessBody''" None 4 "{}"]
  have "fst (generate_pydantic_model c8_same_name ''ResponseSuccessBody'' None 4 {}) =
      render (fst (model_blocks c8_same_name ''ResponseSuccessBody'' None 4 {}))"
    by simp
  moreover from one_declaration_per_model_name
    [of c8_inner "''ResponseSuccessBodyX''" "Some ''x''" 4 "{''ResponseSuccessBodyX''}"] m
  have "generate_pydantic_model c8_inner ''ResponseSuccessBodyX'' (Some ''x'') 4
         {''ResponseSuccessBodyX''} = ([], {''ResponseSuccessBodyX''})"
    by blast
  ultimately show ?thesis using names code m by simp
qed

text \<open>
  C8 as stated fails. The properties \<open>a\<close> and \<open>b\<close> of this schema have the same
  sub-object schema, and one run emits a nested model declaration for each of them.
\<close>

theorem identical_sub_objects_declared_twice:
  "map_of (schema_properties c8_identical) ''a'' = map_of (schema_properties c8_identical) ''b''
   \<and> fst (generate_pydantic_model c8_identical ''ResponseSuccessBody'' None 4 {}) =
       join [CHR 0x0A]
         [''class ResponseSuccessBodyA(BaseModelWithConfig):'',
          ''    v: str = Field(None)'',
          [],
          ''class ResponseSuccessBodyB(BaseModelWithConfig):'',
          ''    v: str = Field(None)'',
          [],
          ''class ResponseSuccessBody(BaseModelWithConfig):'',
          ''    a: ResponseSuccessBodyA = Field(None)'',
          ''    b: ResponseSuccessBodyB = Field(None)'']
   \<and> map fst (fst (model_blocks c8_identical ''ResponseSuccessBody'' None 4 {})) =
     [''ResponseSuccessBodyA'', ''ResponseSuccessBodyB'', ''ResponseSuccessBody'']"
  by code_simp

subsection \<open>C9: sanitising a name twice\<close>

text \<open>
  C9. The identifier sanitisation \<open>_clean_name\<close> (remove the braces, replace dash, dot and
  space by an underscore) is idempotent: applied to its own output it returns that output
  unchanged, for every input string.
\<close>

theorem clean_name_idempotent: "clean_name (clean_name s) = clean_name s"
  by (induction s) (simp_all add: clean_name_map_filter)

subsection \<open>C10: one entry of used_in for each matching parameter\<close>

text \<open>
  C10. For a service with a mapping, \<open>used_in\<close> is the list that holds, for each GET, PUT,
  DELETE or PATCH operation of the service in order, the operation's path once for every
  path parameter of it whose name is the identifier field or contains \<open>id\<close> in lower
  case. Nothing removes a repetition: an operation with two matching path parameters has
  its path twice in the list, as in the example that follows the theorem.
\<close>

theorem used_in_once_per_matching_parameter:
  assumes "map_of (get_endpoint_groups api) service = Some endpoints"
    and "id_mapping_for api ord service = Inr (Some mp)"
  shows "im_used_in mp =
     concat (map (\<lambda>e. if ep_method e \<in> set [''GET'', ''PUT'', ''DELETE'', ''PATCH'']
                       then replicate (length (filter (uses_id (im_id_field mp)) (ep_parameters e)))
                              (ep_path e)
                       else []) endpoints)"
proof -
  let ?qs = "filter (qualifies api ord service) endpoints"
  let ?f = "inferred_field api ord service (last ?qs)"
  have "id_mapping_for api ord service =
      Inr (if ?qs = [] then None
           else Some ((source_mapping service (last ?qs) ?f)
                  \<lparr> im_used_in := used_paths ?f endpoints \<rparr>))"
    using id_mapping_for_service [OF assms(1), of ord] by (simp add: Let_def)
  with assms(2) have "mp = (source_mapping service (last ?qs) ?f)
                  \<lparr> im_used_in := used_paths ?f endpoints \<rparr>"
    by (simp split: if_splits)
  then have "im_used_in mp = used_paths (im_id_field mp) endpoints"
    by (simp add: source_mapping_def)
  then show ?thesis by (simp only: used_paths_def)
qed

text \<open>
  The theorem at the service whose GET has two matching path parameters: the path of the
  GET is in \<open>used_in\<close> twice.
\<close>

theorem used_in_once_per_matching_parameter_witness:
  "id_mapping_for c10_api remdups ''orders'' = Inr (Some c10_mapping)
   \<and> im_used_in c10_mapping =
       concat (map (\<lambda>e. if ep_method e \<in> set [''GET'', ''PUT'', ''DELETE'', ''PATCH'']
                       then replicate
                              (length (filter (uses_id (im_id_field c10_mapping)) (ep_parameters e)))
                              (ep_path e)
                       else []) (the (map_of (get_endpoint_groups c10_api) ''orders'')))
   \<and> im_used_in c10_mapping = [''GET /orders/{orderId}/lines/{lineId}'',
                     ''GET /orders/{orderId}/lines/{lineId}'']"
proof -
  have "map_of (get_endpoint_groups c10_api) ''orders'' \<noteq> None"
    by code_simp
  then obtain endpoints where g: "map_of (get_endpoint_groups c10_api) ''orders'' = Some endpoints"
    by blast
  have m: "id_mapping_for c10_api remdups ''orders'' = Inr (Some c10_mapping)"
    by code_simp
  have e: "the (map_of (get_endpoint_groups c10_api) ''orders'') = endpoints"
    by (simp only: g option.sel)
  have u: "im_used_in c10_mapping = [''GET /orders/{orderId}/lines/{lineId}'',
                     ''GET /orders/{orderId}/lines/{lineId}'']"
    by (simp add: c10_mapping_def)
  from m used_in_once_per_matching_parameter [OF g m] u
  show ?thesis unfolding e by blast
qed

end
